theory Spec2Isabelle
  imports Complex_Main "HOL-Library.Product_Lexorder"
begin

section \<open>Data model\<close>

text \<open>
  The exceptions of the Python pipeline that the model keeps as values.
\<close>

datatype error = ValueError | IndexError | TypeError | ZeroDivisionError | QhullError | WKTReadingError

text \<open>
  One record of the structured array returned by \<open>ept_reader\<close>; the field names are the
  dimension names the pipeline reads.  Coordinates and attributes are floats in the source
  and are modelled by real numbers.
\<close>

record raw_point =
  X :: real
  Y :: real
  Z :: real
  Classification :: int
  ReturnNumber :: int
  NumberOfReturns :: int
  Intensity :: int
  HAG1 :: real
  Coplanar :: real
  NormalX :: real
  NormalY :: real
  NormalZ :: real
  Red :: int
  Green :: int
  Blue :: int

section \<open>Masks (\<open>DetectorTree.__init__\<close>)\<close>

definition ground_mask :: "raw_point list \<Rightarrow> bool list" where
  "ground_mask raw_points = map (\<lambda>p. Classification p = 2) raw_points"

definition n_returns_mask :: "raw_point list \<Rightarrow> bool list" where
  "n_returns_mask raw_points = map (\<lambda>p. NumberOfReturns p < 2) raw_points"

text \<open>
  \<open>masks = np.sum(np.vstack([ground_mask, n_returns_mask]), axis=0) == 0\<close>: the two
  boolean rows are added column by column and a point is kept when the sum is zero.
\<close>

definition masks :: "raw_point list \<Rightarrow> bool list" where
  "masks raw_points =
     map (\<lambda>(g, r). (of_bool g + of_bool r :: nat) = 0)
       (zip (ground_mask raw_points) (n_returns_mask raw_points))"


section \<open>Tables\<close>

text \<open>
  A pandas DataFrame is a list of rows, each with its index label.  \<open>groupby\<close> yields the
  groups in ascending key order, each holding the rows of that key in table order;
  \<open>drop\<close> without \<open>inplace\<close> returns a new table and leaves its argument alone.
\<close>

type_synonym 'r table = "(nat \<times> 'r) list"

definition groupby :: "('r \<Rightarrow> int) \<Rightarrow> 'r table \<Rightarrow> (int \<times> 'r table) list" where
  "groupby key df =
     map (\<lambda>k. (k, filter (\<lambda>ir. key (snd ir) = k) df)) (sort (remdups (map (\<lambda>ir. key (snd ir)) df)))"

definition get_group :: "('r \<Rightarrow> int) \<Rightarrow> 'r table \<Rightarrow> int \<Rightarrow> 'r table" where
  "get_group key df name = filter (\<lambda>ir. key (snd ir) = name) df"

definition drop_rows :: "'r table \<Rightarrow> nat list \<Rightarrow> 'r table" where
  "drop_rows df labels = filter (\<lambda>ir. fst ir \<notin> set labels) df"

definition mean :: "real list \<Rightarrow> real" where
  "mean xs = sum_list xs / real (length xs)"

section \<open>Density clustering (\<open>DetectorTree.hdbscan_on_points\<close>)\<close>

text \<open>
  The columns of \<open>clustered_points\<close>.  \<open>c_HAG\<close> is the column \<open>HAG\<close> (copied from
  \<open>HAG1\<close>) and \<open>c_Classification\<close> the column \<open>Classification\<close>, which here holds the
  cluster label; the prefix keeps the two tables' columns apart.
\<close>

record cpoint =
  c_X :: real
  c_Y :: real
  c_Z :: real
  c_Red :: int
  c_Green :: int
  c_Blue :: int
  c_HAG :: real
  c_Coplanar :: real
  c_NormalX :: real
  c_NormalY :: real
  c_NormalZ :: real
  c_Classification :: int

text \<open>
  \<open>HDBSCAN(min_cluster_size, min_samples).fit(xy).labels_\<close> is library code: the
  clusterer is a parameter that either raises or returns the labels.
\<close>

type_synonym clusterer = "nat \<Rightarrow> nat \<Rightarrow> real list list \<Rightarrow> error + int list"

definition masked_points :: "raw_point list \<Rightarrow> raw_point list" where
  "masked_points raw_points = map fst (filter snd (zip raw_points (masks raw_points)))"

definition clustered_row :: "raw_point \<Rightarrow> int \<Rightarrow> cpoint" where
  "clustered_row p l =
     \<lparr>c_X = X p, c_Y = Y p, c_Z = Z p, c_Red = Red p, c_Green = Green p, c_Blue = Blue p,
      c_HAG = HAG1 p, c_Coplanar = Coplanar p, c_NormalX = NormalX p, c_NormalY = NormalY p,
      c_NormalZ = NormalZ p, c_Classification = l\<rparr>"

definition xy_array :: "bool \<Rightarrow> raw_point list \<Rightarrow> real list list" where
  "xy_array xyz mp =
     (if xyz then map (\<lambda>p. [X p, Y p, Z p]) mp else map (\<lambda>p. [X p, Y p]) mp)"

text \<open>
  There is no \<open>try\<close> around \<open>fit\<close>: what the clusterer raises leaves the method.  The
  DataFrame constructor raises ValueError when the label column and the point columns
  differ in length.  The result is \<open>self.clustered_points\<close>, noise rows removed.
\<close>

definition hdbscan_on_points ::
    "clusterer \<Rightarrow> raw_point list \<Rightarrow> nat \<Rightarrow> nat \<Rightarrow> bool \<Rightarrow> error + cpoint table" where
  "hdbscan_on_points fit raw_points min_cluster_size min_samples xyz =
     (let mp = masked_points raw_points;
          xy = xy_array xyz mp
      in case fit min_cluster_size min_samples xy of
           Inl e \<Rightarrow> Inl e
         | Inr labels \<Rightarrow>
             if length labels \<noteq> length mp then Inl ValueError
             else Inr (filter (\<lambda>ir. c_Classification (snd ir) \<ge> 0)
                        (zip [0..<length mp] (map2 clustered_row mp labels))))"

section \<open>Convex hulls (\<open>DetectorTree.convex_hullify\<close>)\<close>

type_synonym ring = "(real \<times> real) list"

text \<open>
  \<open>loads(wkt).area\<close>: the area of the closed ring, by the surveyor's formula, without
  sign.
\<close>

fun shoelace :: "ring \<Rightarrow> real" where
  "shoelace ((x1, y1) # (x2, y2) # ps) = (x1 * y2 - x2 * y1) + shoelace ((x2, y2) # ps)"
| "shoelace _ = 0"

definition area :: "ring \<Rightarrow> real" where
  "area r = \<bar>shoelace r\<bar> / 2"

text \<open>A row of \<open>tree_df\<close>; \<open>mean_Coplanar\<close> is its column \<open>Coplanar\<close>.\<close>

record tree_row =
  xy_clusterID :: int
  geometry :: ring
  meanZ :: real
  n_pts :: nat
  NX :: real
  NY :: real
  NZ :: real
  mean_Coplanar :: real

text \<open>
  \<open>ConvexHull(coords)\<close> is library code (Qhull): the parameter returns the hull's vertices
  \<open>polygon.points[polygon.vertices]\<close> in their traversal order, or raises.
\<close>

type_synonym hull_fn = "(real \<times> real) list \<Rightarrow> error + (real \<times> real) list"

datatype verdict = TooFewPoints | TooSparse | TooBig | Emit tree_row

text \<open>
  The body of the loop for one group, as the \<open>if\<close>/\<open>elif\<close>/\<open>else\<close> chain has it.
  \<open>polygon.vertices[0]\<close> raises IndexError on an empty vertex list, \<open>loads\<close> rejects
  a ring of fewer than four coordinates, and the quotient
  \<open>group.shape[0] / loads(wkt).area\<close> raises ZeroDivisionError at area zero.
\<close>

definition hullify_group :: "hull_fn \<Rightarrow> bool \<Rightarrow> int \<times> cpoint table \<Rightarrow> error + verdict" where
  "hullify_group ConvexHull kmean_pols ng =
     (case ng of (name, grp) \<Rightarrow>
        if length grp \<le> 3 then Inr TooFewPoints
        else
          (case ConvexHull (map (\<lambda>ir. (c_X (snd ir), c_Y (snd ir))) grp) of
             Inl e \<Rightarrow> Inl e
           | Inr [] \<Rightarrow> Inl IndexError
           | Inr (v # vs) \<Rightarrow>
               (let wkt = (v # vs) @ [v] in
                if length wkt < 4 then Inl WKTReadingError
                else if area wkt = 0 then Inl ZeroDivisionError
                else if real (length grp) / area wkt \<le> 3 then Inr TooSparse
                else if kmean_pols \<and> area wkt \<ge> 800 then Inr TooBig
                else Inr (Emit
                  \<lparr>xy_clusterID = name, geometry = wkt,
                   meanZ = mean (map (\<lambda>ir. c_Z (snd ir)) grp),
                   n_pts = length grp,
                   NX = mean (map (\<lambda>ir. c_NormalX (snd ir)) grp),
                   NY = mean (map (\<lambda>ir. c_NormalY (snd ir)) grp),
                   NZ = mean (map (\<lambda>ir. c_NormalZ (snd ir)) grp),
                   mean_Coplanar = mean (map (\<lambda>ir. c_Coplanar (snd ir)) grp)\<rparr>))))"

text \<open>
  The state the method works on: the caller's table \<open>points\<close> and \<open>self.tree_df\<close>.  A
  rejected group calls \<open>points.drop(...)\<close> and discards the table it returns.  An
  exception ends the loop with the rows written so far.
\<close>

record hull_state =
  points :: "cpoint table"
  tree_df :: "tree_row list"

fun hullify_loop ::
    "hull_fn \<Rightarrow> bool \<Rightarrow> (int \<times> cpoint table) list \<Rightarrow> hull_state \<Rightarrow> hull_state \<times> error option" where
  "hullify_loop ConvexHull kmean_pols [] s = (s, None)"
| "hullify_loop ConvexHull kmean_pols ((name, grp) # rest) s =
     (case hullify_group ConvexHull kmean_pols (name, grp) of
        Inl e \<Rightarrow> (s, Some e)
      | Inr (Emit row) \<Rightarrow>
          hullify_loop ConvexHull kmean_pols rest (s\<lparr>tree_df := tree_df s @ [row]\<rparr>)
      | Inr _ \<Rightarrow>
          (let dropped =
             drop_rows (points s) (map fst (get_group c_Classification (points s) name))
           in hullify_loop ConvexHull kmean_pols rest s))"

text \<open>\<open>self.tree_df\<close> is emptied first, then the groups of \<open>points\<close> are visited.\<close>

definition convex_hullify ::
    "hull_fn \<Rightarrow> cpoint table \<Rightarrow> bool \<Rightarrow> tree_row list \<Rightarrow> hull_state \<times> error option" where
  "convex_hullify ConvexHull pts kmean_pols self_tree_df =
     hullify_loop ConvexHull kmean_pols (groupby c_Classification pts)
       \<lparr>points = pts, tree_df = drop (length self_tree_df) self_tree_df\<rparr>"

section \<open>Spatial join (\<open>DetectorTree.find_points_in_polygons\<close>)\<close>

text \<open>
  A row of \<open>points_df\<close>: the columns selected from the raw points (all but
  \<open>Classification\<close>, which no later stage reads from this table) in \<open>attrs\<close>, and the
  column \<open>pid\<close>.  Its geometry is \<open>Point(X, Y, Z)\<close> of the same row.
\<close>

record pid_point =
  pid :: nat
  attrs :: raw_point

text \<open>\<open>former_preprocess_now_add_pid\<close>: a fresh frame with index 0, 1, ... copied to \<open>pid\<close>.\<close>

definition former_preprocess_now_add_pid :: "raw_point list \<Rightarrow> pid_point table" where
  "former_preprocess_now_add_pid pts =
     map (\<lambda>(i, p). (i, \<lparr>pid = i, attrs = p\<rparr>)) (zip [0..<length pts] pts)"

text \<open>
  \<open>sjoin(left, right, how='left')\<close>: one row per pair of a left row and a right row that
  satisfy the predicate, with the right row's index label in \<open>index_right\<close> and its
  columns beside the left ones; a left row without a partner is kept once with NaN (None)
  in the right-hand columns.
\<close>

type_synonym ('l, 'r) joined = "'l \<times> (nat \<times> 'r) option"

definition sjoin_left ::
    "('l \<Rightarrow> 'r \<Rightarrow> bool) \<Rightarrow> 'l table \<Rightarrow> 'r table \<Rightarrow> ('l, 'r) joined table" where
  "sjoin_left pred left right =
     concat (map (\<lambda>il.
        case filter (\<lambda>jr. pred (snd il) (snd jr)) right of
          [] \<Rightarrow> [(fst il, snd il, None)]
        | ms \<Rightarrow> map (\<lambda>jr. (fst il, snd il, Some jr)) ms) left)"

definition index_right :: "('l, 'r) joined \<Rightarrow> nat option" where
  "index_right j = map_option fst (snd j)"

definition joined_xy_clusterID :: "('l, tree_row) joined \<Rightarrow> int option" where
  "joined_xy_clusterID j = map_option (\<lambda>jr. xy_clusterID (snd jr)) (snd j)"

text \<open>
  The geometric predicate of the join (\<open>intersects\<close>, evaluated by GEOS on the x and y of
  the point) is a parameter.  Ground points are removed, the rest is joined to the
  polygons, rows with NaN in \<open>index_right\<close> are removed, then rows whose
  \<open>xy_clusterID\<close> is not at least 0 (a comparison that NaN fails).  The result is
  \<open>self.xy_grouped_points\<close>, where \<open>index_right\<close> is called \<open>polygon_id\<close>.
\<close>

definition find_points_in_polygons ::
    "(real \<times> real \<Rightarrow> ring \<Rightarrow> bool) \<Rightarrow> raw_point list \<Rightarrow> tree_row table \<Rightarrow>
     (pid_point, tree_row) joined table" where
  "find_points_in_polygons intersects raw_points polygon_df =
     (let cluster_points = map fst (filter (\<lambda>pg. \<not> snd pg) (zip raw_points (ground_mask raw_points)));
          cluster_data = former_preprocess_now_add_pid cluster_points;
          grouped_points =
            sjoin_left (\<lambda>l r. intersects (X (attrs l), Y (attrs l)) (geometry r))
              cluster_data polygon_df;
          grouped_points = filter (\<lambda>j. index_right (snd j) \<noteq> None) grouped_points;
          grouped_points =
            filter (\<lambda>j. case joined_xy_clusterID (snd j) of None \<Rightarrow> False | Some c \<Rightarrow> c \<ge> 0)
              grouped_points
      in grouped_points)"

text \<open>
  \<open>cluster_points = self.raw_points[self.ground_mask.__invert__()]\<close>, the table the join
  starts from.
\<close>

definition cluster_points :: "raw_point list \<Rightarrow> raw_point list" where
  "cluster_points raw_points =
     map fst (filter (\<lambda>pg. \<not> snd pg) (zip raw_points (ground_mask raw_points)))"

text \<open>
  The join predicate on the polygons this pipeline builds: a point meets a convex ring
  when it lies on one side of every edge, the boundary included.
\<close>

fun cross_products :: "real \<times> real \<Rightarrow> ring \<Rightarrow> real list" where
  "cross_products (px, py) ((x1, y1) # (x2, y2) # vs) =
     ((x2 - x1) * (py - y1) - (y2 - y1) * (px - x1)) # cross_products (px, py) ((x2, y2) # vs)"
| "cross_products p vs = []"

definition point_in_ring :: "real \<times> real \<Rightarrow> ring \<Rightarrow> bool" where
  "point_in_ring p r =
     (list_all (\<lambda>c. c \<ge> 0) (cross_products p r) \<or> list_all (\<lambda>c. c \<le> 0) (cross_products p r))"

section \<open>Rasterisation (\<open>helper_functions.interpolate_df\<close>)\<close>

text \<open>
  \<open>np.round\<close> rounds to the nearest integer, halves to the even neighbour; Python's
  \<open>round(x, 1)\<close> does the same at the first decimal, and \<open>int\<close> truncates towards zero.
  The arithmetic is that of the real numbers.
\<close>

definition np_round :: "real \<Rightarrow> int" where
  "np_round x =
     (let f = \<lfloor>x\<rfloor>; d = x - of_int f
      in if d < 1 / 2 then f else if 1 / 2 < d then f + 1 else if even f then f else f + 1)"

definition round_to_val :: "real \<Rightarrow> real \<Rightarrow> real" where
  "round_to_val a round_val = of_int (np_round (a / round_val)) * round_val"

definition py_round1 :: "real \<Rightarrow> real" where
  "py_round1 x = of_int (np_round (x * 10)) / 10"

definition py_int :: "real \<Rightarrow> int" where
  "py_int x = (if 0 \<le> x then \<lfloor>x\<rfloor> else \<lceil>x\<rceil>)"

text \<open>
  An integer index into an axis of size \<open>n\<close>: NumPy counts a negative index from the
  end and raises IndexError outside \<open>-n \<le> i < n\<close>.
\<close>

definition np_index :: "nat \<Rightarrow> int \<Rightarrow> error + nat" where
  "np_index n i =
     (if 0 \<le> i \<and> i < int n then Inr (nat i)
      else if i < 0 \<and> - int n \<le> i then Inr (nat (int n + i))
      else Inl IndexError)"

text \<open>\<open>img[rows, cols] = values\<close> on an image of \<open>ny\<close> rows and \<open>nx\<close> columns.\<close>

fun img_assign ::
    "nat \<Rightarrow> nat \<Rightarrow> real list list \<Rightarrow> (int \<times> int \<times> real) list \<Rightarrow> error + real list list" where
  "img_assign ny nx img [] = Inr img"
| "img_assign ny nx img ((r, c, v) # rest) =
     (case np_index ny r of
        Inl e \<Rightarrow> Inl e
      | Inr i \<Rightarrow>
          (case np_index nx c of
             Inl e \<Rightarrow> Inl e
           | Inr j \<Rightarrow> img_assign ny nx (img[i := (img ! i)[j := v]]) rest))"

text \<open>
  The rows of \<open>xyz_points\<close> are (X, Y, Z).  \<open>binned_data\<close> has one row per distinct
  (x_round, y_round), in ascending order of the key, with the largest squared height of
  the cell.  \<open>min\<close> of an empty column raises ValueError.  The image has
  \<open>img_size_y + 1\<close> rows and \<open>img_size_x + 1\<close> columns, the sizes being the largest
  offsets themselves, while the indices are the offsets divided by \<open>round_val\<close>.
\<close>

definition binned :: "(real \<times> real \<times> real) list \<Rightarrow> real \<Rightarrow> (real \<times> real \<times> real) list" where
  "binned xyz_points round_val =
     (let rows = map (\<lambda>(x, y, z). ((round_to_val x round_val, round_to_val y round_val), z ^ 2))
                   xyz_points
      in map (\<lambda>k. (fst k, snd k, Max (set (map snd (filter (\<lambda>r. fst r = k) rows)))))
           (sort (remdups (map fst rows))))"

definition interpolate_df ::
    "(real \<times> real \<times> real) list \<Rightarrow> real \<Rightarrow> error + (real list list \<times> real \<times> real)" where
  "interpolate_df xyz_points round_val =
     (let binned_data = binned xyz_points round_val
      in if binned_data = [] then Inl ValueError
         else
           (let minx = Min (set (map fst binned_data));
                miny = Min (set (map (\<lambda>b. fst (snd b)) binned_data));
                x_arr = map (\<lambda>b. fst b - minx) binned_data;
                y_arr = map (\<lambda>b. fst (snd b) - miny) binned_data;
                img_size_x = py_int (py_round1 (Max (set x_arr)));
                img_size_y = py_int (py_round1 (Max (set y_arr)));
                ny = nat (img_size_y + 1);
                nx = nat (img_size_x + 1);
                img = replicate ny (replicate nx 0)
            in case img_assign ny nx img
                      (zip (map (\<lambda>y. py_int (round_to_val (y / round_val) 1)) y_arr)
                         (zip (map (\<lambda>x. py_int (round_to_val (x / round_val) 1)) x_arr)
                            (map (\<lambda>b. snd (snd b)) binned_data))) of
                 Inl e \<Rightarrow> Inl e
               | Inr img' \<Rightarrow> Inr (img', minx, miny)))"

section \<open>Peak detection (\<open>helper_functions.find_n_clusters_peaks\<close>)\<close>

text \<open>
  \<open>peak_local_max\<close> is library code: the parameter returns the (row, col) positions of
  the local maxima of the image.  Python's \<open>set\<close> removes repeated positions and repeated
  coordinates; the order it leaves is not specified, here the order of last occurrence.
\<close>

definition add_vectors :: "(nat \<times> nat) \<times> (real \<times> real \<times> real) \<times> real \<times> real \<Rightarrow> real \<times> real \<times> real" where
  "add_vectors vec =
     (case vec of ((y, x), (minx, miny, minz), z, round_val) \<Rightarrow>
        (minx + real x * round_val, miny + real y * round_val, z))"

definition find_n_clusters_peaks ::
    "(real list list \<Rightarrow> int \<Rightarrow> (nat \<times> nat) list) \<Rightarrow> (real \<times> real \<times> real) list \<Rightarrow> real \<Rightarrow> int \<Rightarrow>
     error + nat \<times> (real \<times> real \<times> real) list" where
  "find_n_clusters_peaks peak_local_max cluster_data round_val min_dist =
     (case interpolate_df cluster_data round_val of
        Inl e \<Rightarrow> Inl e
      | Inr (img, minx, miny) \<Rightarrow>
          (let indices = remdups (peak_local_max img min_dist);
               n_clusters = length indices
           in if \<exists>i \<in> set indices. \<not> (fst i < length img \<and> snd i < length (img ! fst i))
              then Inl IndexError
              else
                (let z = map (\<lambda>i. img ! fst i ! snd i) indices;
                     coordinates =
                       remdups (map (\<lambda>(i, zi). add_vectors (i, (minx, miny, 0), zi, round_val))
                                  (zip indices z))
                 in Inr (max 1 n_clusters, coordinates))))"

section \<open>Seeded clustering (\<open>DetectorTree.kmean_cluster_group\<close>)\<close>

text \<open>
  The estimator object built by \<open>KMeans(n_clusters=..., max_iter=..., init=...)\<close>;
  \<open>init\<close> is \<open>'k-means++'\<close> when the constructor is not given one.  Fitting it is
  library code: the parameter \<open>fit\<close> returns \<open>labels_\<close> or raises.
\<close>

datatype init = KMeansPlusPlus | InitArray "(real \<times> real \<times> real) list"

record KMeans =
  n_clusters :: nat
  max_iter :: nat
  init :: init

type_synonym kmeans_fit = "KMeans \<Rightarrow> (real \<times> real \<times> real) list \<Rightarrow> error + int list"

text \<open>
  A Python call that passes every argument by keyword raises TypeError when a keyword is
  not a parameter of the function, or a parameter without default gets no argument.
\<close>

definition py_call_keywords :: "string list \<Rightarrow> string list \<Rightarrow> error + unit" where
  "py_call_keywords params keywords =
     (if list_all (\<lambda>k. k \<in> set params) keywords \<and> list_all (\<lambda>p. p \<in> set keywords) params
      then Inr () else Inl TypeError)"

text \<open>The parameters of \<open>def find_n_clusters_peaks(cluster_data, round_val, min_dist)\<close>.\<close>

definition find_n_clusters_peaks_params :: "string list" where
  "find_n_clusters_peaks_params = [''cluster_data'', ''round_val'', ''min_dist'']"

text \<open>
  The lines of \<open>kmean_cluster_group\<close> after the peak detection, from its two results:
  the seed coordinates are appended to \<open>self.tree_coords\<close> and an estimator is built and
  fitted.  The result is the new \<open>self.tree_coords\<close> and the labels, or the exception.
\<close>

definition kmeans_for_peaks ::
    "kmeans_fit \<Rightarrow> (real \<times> real \<times> real) list \<Rightarrow> (real \<times> real \<times> real) list \<Rightarrow>
     nat \<times> (real \<times> real \<times> real) list \<Rightarrow> (real \<times> real \<times> real) list \<times> (error + int list)" where
  "kmeans_for_peaks fit tree_coords cluster_data peaks =
     (case peaks of (n, coordinates) \<Rightarrow>
        if length coordinates > 0
        then (tree_coords @ coordinates,
              fit \<lparr>n_clusters = n, max_iter = 100, init = InitArray coordinates\<rparr> cluster_data)
        else (tree_coords,
              fit \<lparr>n_clusters = n, max_iter = 1, init = KMeansPlusPlus\<rparr> cluster_data))"

text \<open>
  The method calls \<open>find_n_clusters_peaks(cluster_data=..., min_dist=..., round_val=...,
  relative_threshold=...)\<close>; the call is checked against the parameters of the function
  before its body runs.
\<close>

definition kmean_cluster_group ::
    "(real list list \<Rightarrow> int \<Rightarrow> (nat \<times> nat) list) \<Rightarrow> kmeans_fit \<Rightarrow> (real \<times> real \<times> real) list \<Rightarrow>
     pid_point list \<Rightarrow> int \<Rightarrow> real \<Rightarrow> real \<Rightarrow>
     (real \<times> real \<times> real) list \<times> (error + int list)" where
  "kmean_cluster_group peak_local_max fit tree_coords grp min_dist relative_threshold round_val =
     (let cluster_data = map (\<lambda>p. (X (attrs p), Y (attrs p), Z (attrs p))) grp
      in case py_call_keywords find_n_clusters_peaks_params
                [''cluster_data'', ''min_dist'', ''round_val'', ''relative_threshold''] of
           Inl e \<Rightarrow> (tree_coords, Inl e)
         | Inr u \<Rightarrow>
             (case find_n_clusters_peaks peak_local_max cluster_data round_val min_dist of
                Inl e \<Rightarrow> (tree_coords, Inl e)
              | Inr peaks \<Rightarrow> kmeans_for_peaks fit tree_coords cluster_data peaks))"

text \<open>
  \<open>second_filter\<close>: the PDAL pipeline is library code (a parameter); when it raises, the
  exception is caught and the points are returned as they came.
\<close>

definition second_filter ::
    "(pid_point list \<Rightarrow> error + pid_point list) \<Rightarrow> pid_point list \<Rightarrow> pid_point list" where
  "second_filter pdal pts = (case pdal pts of Inl e \<Rightarrow> pts | Inr out_points \<Rightarrow> out_points)"

section \<open>Label fusion (\<open>DetectorTree.kmean_cluster\<close>)\<close>

text \<open>
  \<open>.values.astype(str)\<close> on the two float columns: an integral float prints as its
  integer followed by \<open>.0\<close> (below 1e16, where NumPy changes to exponent notation), NaN
  prints as \<open>nan\<close>.  The label column is a float column as soon as \<open>labs.update\<close> has
  merged a group that does not cover the whole table.
\<close>

definition digit_char :: "nat \<Rightarrow> char" where
  "digit_char d = ''0123456789'' ! d"

fun str_nat :: "nat \<Rightarrow> string" where
  "str_nat n = (if n < 10 then [digit_char n] else str_nat (n div 10) @ [digit_char (n mod 10)])"

declare str_nat.simps [simp del]

definition str_int :: "int \<Rightarrow> string" where
  "str_int i = (if i < 0 then CHR ''-'' # str_nat (nat (- i)) else str_nat (nat i))"

definition astype_str :: "int option \<Rightarrow> string" where
  "astype_str v = (case v of None \<Rightarrow> ''nan'' | Some i \<Rightarrow> str_int i @ ''.0'')"

text \<open>
  \<open>pd.factorize(keys)[0]\<close>: the keys are numbered from 0 in the order in which they are
  first seen; \<open>uniques\<close> holds the keys seen so far.
\<close>

fun index_of :: "'a list \<Rightarrow> 'a \<Rightarrow> nat option" where
  "index_of [] k = None"
| "index_of (u # us) k = (if u = k then Some 0 else map_option Suc (index_of us k))"

fun factorize_from :: "'a list \<Rightarrow> 'a list \<Rightarrow> nat list" where
  "factorize_from uniques [] = []"
| "factorize_from uniques (k # ks) =
     (case index_of uniques k of
        Some c \<Rightarrow> c # factorize_from uniques ks
      | None \<Rightarrow> length uniques # factorize_from (uniques @ [k]) ks)"

definition factorize :: "'a list \<Rightarrow> nat list" where
  "factorize keys = factorize_from [] keys"

text \<open>
  The rows of \<open>xy_grouped_points\<close> are rows of the join.  \<open>groupby('xy_clusterID')\<close>
  leaves out rows whose key is NaN.
\<close>

type_synonym grouped_point = "(pid_point, tree_row) joined"

definition row_pid :: "nat \<times> grouped_point \<Rightarrow> nat" where
  "row_pid r = pid (fst (snd r))"

definition row_xy :: "nat \<times> grouped_point \<Rightarrow> int option" where
  "row_xy r = joined_xy_clusterID (snd r)"

definition groupby_xy :: "grouped_point table \<Rightarrow> (int \<times> grouped_point table) list" where
  "groupby_xy df =
     map (\<lambda>k. (k, filter (\<lambda>r. row_xy r = Some k) df))
       (sort (remdups (List.map_filter row_xy df)))"

text \<open>
  \<open>float(self.tree_df.loc[self.tree_df['xy_clusterID'] == int(name)].geometry.area)\<close>:
  the conversion raises TypeError unless exactly one polygon has that cluster id.
\<close>

definition tree_area :: "tree_row list \<Rightarrow> int \<Rightarrow> error + real" where
  "tree_area tdf name =
     (case filter (\<lambda>t. xy_clusterID t = name) tdf of
        [t] \<Rightarrow> Inr (area (geometry t))
      | _ \<Rightarrow> Inl TypeError)"

text \<open>
  \<open>labs.update(new_labs)\<close> on the column \<open>labs\<close>, both frames indexed by pid: every row
  of \<open>labs\<close> whose pid is in \<open>new_labs\<close> takes the new label.  Aligning \<open>new_labs\<close> to
  the index of \<open>labs\<close> raises ValueError when \<open>new_labs\<close> has a repeated pid and the two
  indexes differ.
\<close>

definition update_labs :: "(nat \<times> int) list \<Rightarrow> (nat \<times> int) list \<Rightarrow> error + (nat \<times> int) list" where
  "update_labs labs new_labs =
     (if \<not> distinct (map fst new_labs) \<and> map fst new_labs \<noteq> map fst labs then Inl ValueError
      else Inr (map (\<lambda>pl. case map_of new_labs (fst pl) of
                            None \<Rightarrow> pl
                          | Some l \<Rightarrow> (fst pl, l)) labs))"

record kmean_state =
  labs :: "(nat \<times> int) list"
  tree_coords :: "(real \<times> real \<times> real) list"

text \<open>
  The loop over the polygons.  A polygon of area at least 2 with at least 10 points is
  clustered and its labels merged; every other polygon gets the label -1 for its points.
  The DataFrame of the new labels needs as many labels as points (ValueError otherwise).
  \<open>min_dist\<close> is asserted to be an \<open>int\<close>, which is its type here.
\<close>

fun kmean_loop ::
    "(pid_point list \<Rightarrow> error + pid_point list) \<Rightarrow> (real list list \<Rightarrow> int \<Rightarrow> (nat \<times> nat) list) \<Rightarrow>
     kmeans_fit \<Rightarrow> tree_row list \<Rightarrow> int \<Rightarrow> real \<Rightarrow> real \<Rightarrow>
     (int \<times> grouped_point table) list \<Rightarrow> kmean_state \<Rightarrow> error + kmean_state" where
  "kmean_loop pdal peak_local_max fit tdf min_dist relative_threshold round_val [] st = Inr st"
| "kmean_loop pdal peak_local_max fit tdf min_dist relative_threshold round_val
     ((name, grp) # rest) st =
     (case tree_area tdf name of
        Inl e \<Rightarrow> Inl e
      | Inr a \<Rightarrow>
          if name \<ge> 0 \<and> a \<ge> 2 \<and> length grp \<ge> 10
          then
            (let to_cluster = second_filter pdal (map (\<lambda>r. fst (snd r)) grp);
                 res = kmean_cluster_group peak_local_max fit (tree_coords st) to_cluster
                         min_dist relative_threshold round_val
             in case snd res of
                  Inl e \<Rightarrow> Inl e
                | Inr kmeans_labels \<Rightarrow>
                    if length kmeans_labels \<noteq> length to_cluster then Inl ValueError
                    else
                      (case update_labs (labs st) (zip (map pid to_cluster) kmeans_labels) of
                         Inl e \<Rightarrow> Inl e
                       | Inr labs' \<Rightarrow>
                           kmean_loop pdal peak_local_max fit tdf min_dist relative_threshold
                             round_val rest \<lparr>labs = labs', tree_coords = fst res\<rparr>))
          else
            (case update_labs (labs st) (map (\<lambda>r. (row_pid r, - 1)) grp) of
               Inl e \<Rightarrow> Inl e
             | Inr labs' \<Rightarrow>
                 kmean_loop pdal peak_local_max fit tdf min_dist relative_threshold round_val
                   rest (st\<lparr>labs := labs'\<rparr>)))"

text \<open>
  A row of \<open>kmean_grouped_points\<close> with the two columns the method adds:
  \<open>value_clusterID\<close> and the factorized \<open>Classification\<close> (here \<open>final_Classification\<close>).
\<close>

record kmean_point =
  source :: "nat \<times> grouped_point"
  value_clusterID :: int
  final_Classification :: int

definition combi_ids :: "(nat \<times> grouped_point) list \<Rightarrow> int list \<Rightarrow> string list" where
  "combi_ids rows vals = map2 (\<lambda>v r. astype_str (Some v) @ astype_str (row_xy r)) vals rows"

definition kmean_cluster ::
    "(pid_point list \<Rightarrow> error + pid_point list) \<Rightarrow> (real list list \<Rightarrow> int \<Rightarrow> (nat \<times> nat) list) \<Rightarrow>
     kmeans_fit \<Rightarrow> tree_row list \<Rightarrow> (real \<times> real \<times> real) list \<Rightarrow> grouped_point table \<Rightarrow>
     int \<Rightarrow> real \<Rightarrow> real \<Rightarrow> error + (real \<times> real \<times> real) list \<times> kmean_point list" where
  "kmean_cluster pdal peak_local_max fit tdf coords xy_grouped_points
     min_dist relative_threshold round_val =
     (case kmean_loop pdal peak_local_max fit tdf min_dist relative_threshold round_val
             (groupby_xy xy_grouped_points)
             \<lparr>labs = map (\<lambda>r. (row_pid r, 0)) xy_grouped_points, tree_coords = coords\<rparr> of
        Inl e \<Rightarrow> Inl e
      | Inr st \<Rightarrow>
          (let vals = map (\<lambda>pl. snd pl * 10) (labs st);
               codes = factorize (combi_ids xy_grouped_points vals)
           in Inr (tree_coords st,
                   map (\<lambda>(r, v, c). \<lparr>source = r, value_clusterID = v, final_Classification = int c\<rparr>)
                     (zip xy_grouped_points (zip vals codes)))))"

section \<open>Sample inputs\<close>

text \<open>Concrete tables at which the theorems below are exercised.\<close>

definition sample_raw :: "real \<Rightarrow> real \<Rightarrow> real \<Rightarrow> int \<Rightarrow> int \<Rightarrow> raw_point" where
  "sample_raw x y z cls nret =
     \<lparr>X = x, Y = y, Z = z, Classification = cls, ReturnNumber = 1, NumberOfReturns = nret,
      Intensity = 0, HAG1 = z, Coplanar = 0, NormalX = 0, NormalY = 0, NormalZ = 1,
      Red = 0, Green = 0, Blue = 0\<rparr>"

definition sample_cpoint :: "real \<Rightarrow> real \<Rightarrow> int \<Rightarrow> cpoint" where
  "sample_cpoint x y l =
     \<lparr>c_X = x, c_Y = y, c_Z = 5, c_Red = 0, c_Green = 0, c_Blue = 0, c_HAG = 5,
      c_Coplanar = 0, c_NormalX = 0, c_NormalY = 0, c_NormalZ = 1, c_Classification = l\<rparr>"

text \<open>
  A clusterer with the input validation of the library: an array without samples is
  rejected with ValueError.  On every other input this stand-in reports noise only; it is
  used at the empty array alone.
\<close>

definition fit_validating :: clusterer where
  "fit_validating min_cluster_size min_samples xy =
     (if xy = [] then Inl ValueError else Inr (map (\<lambda>_. - 1) xy))"

text \<open>Four points on the corners of a square of the given side, all of cluster 0.\<close>

definition square_points :: "real \<Rightarrow> cpoint table" where
  "square_points a =
     [(0, sample_cpoint 0 0 0), (1, sample_cpoint a 0 0),
      (2, sample_cpoint a a 0), (3, sample_cpoint 0 a 0)]"

definition square_row :: tree_row where
  "square_row =
     \<lparr>xy_clusterID = 0, geometry = [(0, 0), (1, 0), (1, 1), (0, 1), (0, 0)],
      meanZ = 5, n_pts = 4, NX = 0, NY = 0, NZ = 1, mean_Coplanar = 0\<rparr>"

text \<open>Two squares of side 2 that overlap in the square from (1, 1) to (2, 2).\<close>

definition overlapping_polygons :: "tree_row table" where
  "overlapping_polygons =
     [(0, \<lparr>xy_clusterID = 0, geometry = [(0, 0), (2, 0), (2, 2), (0, 2), (0, 0)],
           meanZ = 5, n_pts = 16, NX = 0, NY = 0, NZ = 1, mean_Coplanar = 0\<rparr>),
      (1, \<lparr>xy_clusterID = 1, geometry = [(1, 1), (3, 1), (3, 3), (1, 3), (1, 1)],
           meanZ = 5, n_pts = 16, NX = 0, NY = 0, NZ = 1, mean_Coplanar = 0\<rparr>)]"

text \<open>
  Three joined points in two unit squares (area 1 each): the first two in the polygon of
  cluster 0, the third in the polygon of cluster 1.
\<close>

definition small_tree_df :: "tree_row list" where
  "small_tree_df =
     [square_row,
      \<lparr>xy_clusterID = 1, geometry = [(5, 5), (6, 5), (6, 6), (5, 6), (5, 5)],
       meanZ = 7, n_pts = 4, NX = 0, NY = 0, NZ = 1, mean_Coplanar = 0\<rparr>]"

definition small_grouped_points :: "grouped_point table" where
  "small_grouped_points =
     [(0, \<lparr>pid = 0, attrs = sample_raw (1 / 4) (1 / 4) 5 1 2\<rparr>, Some (0, small_tree_df ! 0)),
      (1, \<lparr>pid = 1, attrs = sample_raw (1 / 2) (1 / 2) 6 1 2\<rparr>, Some (0, small_tree_df ! 0)),
      (2, \<lparr>pid = 2, attrs = sample_raw (11 / 2) (11 / 2) 7 1 2\<rparr>, Some (1, small_tree_df ! 1))]"

text \<open>
  Library stand-ins for the sample run: a second filter that keeps every point, a peak
  detector that finds no peak, and a fit that hands out the labels 0, 1, 0, 1, ... in
  turn.  The sample polygons are too small for any of them to be called.
\<close>

definition keep_pdal :: "pid_point list \<Rightarrow> error + pid_point list" where
  "keep_pdal pts = Inr pts"

definition no_peak :: "real list list \<Rightarrow> int \<Rightarrow> (nat \<times> nat) list" where
  "no_peak img min_distance = []"

definition alternate_fit :: kmeans_fit where
  "alternate_fit k d = Inr (map (\<lambda>i. int (i mod n_clusters k)) [0..<length d])"

text \<open>The table expected from the sample run.\<close>

definition small_labelled :: "kmean_point list" where
  "small_labelled =
     map (\<lambda>(r, v, c). \<lparr>source = r, value_clusterID = v, final_Classification = c\<rparr>)
       (zip small_grouped_points (zip [- 10, - 10, - 10] [0, 0, 1]))"

text \<open>
  Four raw points for the join with the two overlapping squares: one in the overlap, one
  in the first square only, a ground point, and one outside both squares.
\<close>

definition join_raw_points :: "raw_point list" where
  "join_raw_points =
     [sample_raw (3 / 2) (3 / 2) 5 1 2, sample_raw (1 / 2) (1 / 2) 5 1 2,
      sample_raw 1 1 0 2 1, sample_raw 5 5 5 1 1]"

section \<open>Properties\<close>

text \<open>
  C7: the clustering mask has one entry per raw point, and the entry of a point is False
  (the point is excluded) exactly when the point is classified as ground (class 2) or has
  fewer than two returns.
\<close>

theorem masks_excludes_exactly_ground_or_single_return:
  "length (masks raw_points) = length raw_points \<and>
   map Not (masks raw_points) =
     map (\<lambda>p. Classification p = 2 \<or> NumberOfReturns p < 2) raw_points"
  by (induction raw_points) (simp_all add: masks_def ground_mask_def n_returns_mask_def)

subsection \<open>Hull filter\<close>

lemma hullify_loop_points: "points (fst (hullify_loop H kp gs s)) = points s"
proof (induction gs arbitrary: s)
  case Nil
  then show ?case by simp
next
  case (Cons g gs)
  obtain name grp where g: "g = (name, grp)" by (cases g)
  show ?case
    unfolding g
    by (cases "hullify_group H kp (name, grp)")
       (auto simp: Cons.IH Let_def split: verdict.splits)
qed

lemma hullify_group_Emit:
  assumes "hullify_group H kp (name, grp) = Inr (Emit row)"
  shows "xy_clusterID row = name \<and> n_pts row = length grp \<and> 4 \<le> length grp \<and>
         3 < real (n_pts row) / area (geometry row)"
  using assms
  by (auto simp: hullify_group_def Let_def split: if_splits sum.splits list.splits)

lemma hullify_loop_rows:
  assumes "row \<in> set (tree_df (fst (hullify_loop H kp gs s)))"
  shows "row \<in> set (tree_df s) \<or>
         (\<exists>name grp. (name, grp) \<in> set gs \<and> hullify_group H kp (name, grp) = Inr (Emit row))"
  using assms
proof (induction gs arbitrary: s)
  case Nil
  then show ?case by simp
next
  case (Cons g gs)
  obtain name grp where g: "g = (name, grp)" by (cases g)
  show ?case
  proof (cases "hullify_group H kp (name, grp)")
    case (Inl e)
    with Cons.prems show ?thesis by (simp add: g)
  next
    case (Inr v)
    show ?thesis
    proof (cases v)
      case (Emit r)
      with Inr Cons.prems
      have "row \<in> set (tree_df (fst (hullify_loop H kp gs (s\<lparr>tree_df := tree_df s @ [r]\<rparr>))))"
        by (simp add: g)
      from Cons.IH[OF this] Inr Emit show ?thesis
        by (auto simp: g)
    next
      case TooFewPoints
      with Inr Cons.prems have "row \<in> set (tree_df (fst (hullify_loop H kp gs s)))"
        by (simp add: g)
      from Cons.IH[OF this] show ?thesis by (auto simp: g)
    next
      case TooSparse
      with Inr Cons.prems have "row \<in> set (tree_df (fst (hullify_loop H kp gs s)))"
        by (simp add: g)
      from Cons.IH[OF this] show ?thesis by (auto simp: g)
    next
      case TooBig
      with Inr Cons.prems have "row \<in> set (tree_df (fst (hullify_loop H kp gs s)))"
        by (simp add: g)
      from Cons.IH[OF this] show ?thesis by (auto simp: g)
    qed
  qed
qed

lemma groupby_square: "groupby c_Classification (square_points a) = [(0, square_points a)]"
  by (simp add: groupby_def square_points_def sample_cpoint_def)

lemma hullify_group_unit_square:
  "hullify_group Inr False (0, square_points 1) = Inr (Emit square_row)"
  by (simp add: hullify_group_def square_points_def sample_cpoint_def area_def mean_def
      square_row_def)

text \<open>
  C6: every row that \<open>convex_hullify\<close> writes to \<open>tree_df\<close> comes from a group of the
  input with at least four points, and its point count divided by the area of its polygon
  is above 3.  The checks run in order: a group of at most three points is rejected
  whatever the hull routine would do with it (it is never called), and a group whose
  density is at most 3 is rejected as too sparse whatever the switch \<open>kmean_pols\<close> and
  its area are (the area bound is never consulted).
\<close>

theorem convex_hullify_filter:
  "(\<forall>row \<in> set (tree_df (fst (convex_hullify H pts kp t0))).
      \<exists>name grp. (name, grp) \<in> set (groupby c_Classification pts) \<and>
         xy_clusterID row = name \<and> n_pts row = length grp \<and> 4 \<le> length grp \<and>
         3 < real (n_pts row) / area (geometry row)) \<and>
   (\<forall>H' kp' name grp. length grp \<le> 3 \<longrightarrow>
      hullify_group H' kp' (name, grp) = Inr TooFewPoints) \<and>
   (\<forall>kp' name grp v vs.
      3 < length grp \<longrightarrow>
      H (map (\<lambda>ir. (c_X (snd ir), c_Y (snd ir))) grp) = Inr (v # vs) \<longrightarrow>
      2 \<le> length vs \<longrightarrow>
      area ((v # vs) @ [v]) \<noteq> 0 \<longrightarrow>
      real (length grp) / area ((v # vs) @ [v]) \<le> 3 \<longrightarrow>
      hullify_group H kp' (name, grp) = Inr TooSparse)"
proof (intro conjI ballI allI impI)
  fix row
  assume "row \<in> set (tree_df (fst (convex_hullify H pts kp t0)))"
  then have "row \<in> set (tree_df (fst (hullify_loop H kp (groupby c_Classification pts)
                \<lparr>points = pts, tree_df = []\<rparr>)))"
    by (simp add: convex_hullify_def)
  from hullify_loop_rows[OF this]
  obtain name grp where "(name, grp) \<in> set (groupby c_Classification pts)"
    and "hullify_group H kp (name, grp) = Inr (Emit row)"
    by auto
  with hullify_group_Emit show "\<exists>name grp. (name, grp) \<in> set (groupby c_Classification pts) \<and>
         xy_clusterID row = name \<and> n_pts row = length grp \<and> 4 \<le> length grp \<and>
         3 < real (n_pts row) / area (geometry row)"
    by blast
next
  fix H' :: hull_fn and kp' name and grp :: "cpoint table"
  assume "length grp \<le> 3"
  then show "hullify_group H' kp' (name, grp) = Inr TooFewPoints"
    by (simp add: hullify_group_def)
next
  fix kp' name and grp :: "cpoint table" and v vs
  assume "3 < length grp"
    and "H (map (\<lambda>ir. (c_X (snd ir), c_Y (snd ir))) grp) = Inr (v # vs)"
    and "2 \<le> length vs"
    and "area ((v # vs) @ [v]) \<noteq> 0"
    and "real (length grp) / area ((v # vs) @ [v]) \<le> 3"
  then show "hullify_group H kp' (name, grp) = Inr TooSparse"
    by (simp add: hullify_group_def)
qed

theorem convex_hullify_filter_witness:
  "square_row \<in> set (tree_df (fst (convex_hullify Inr (square_points 1) False []))) \<and>
   (\<exists>name grp. (name, grp) \<in> set (groupby c_Classification (square_points 1)) \<and>
      xy_clusterID square_row = name \<and> n_pts square_row = length grp \<and> 4 \<le> length grp \<and>
      3 < real (n_pts square_row) / area (geometry square_row)) \<and>
   length (take 3 (square_points 1)) \<le> 3 \<and>
   hullify_group (\<lambda>_. Inl QhullError) True (0, take 3 (square_points 1)) = Inr TooFewPoints \<and>
   real (length (square_points 30)) / area [(0, 0), (30, 0), (30, 30), (0, 30), (0, 0)] \<le> 3 \<and>
   area [(0, 0), (30, 0), (30, 30), (0, 30), (0, 0)] \<ge> 800 \<and>
   hullify_group Inr True (0, square_points 30) = Inr TooSparse"
proof -
  note inst = convex_hullify_filter[of Inr "square_points 1" False "[]"]
  have mem: "square_row \<in> set (tree_df (fst (convex_hullify Inr (square_points 1) False [])))"
    by (simp add: convex_hullify_def groupby_square hullify_group_unit_square)
  have few: "length (take 3 (square_points 1)) \<le> 3" by simp
  have a30: "area [(0, 0), (30, 0), (30, 30), (0, 30), (0::real, 0::real)] = 900"
    by (simp add: area_def)
  have hull30: "Inr (map (\<lambda>ir. (c_X (snd ir), c_Y (snd ir))) (square_points 30))
      = (Inr ((0, 0) # [(30, 0), (30, 30), (0, 30)]) :: error + (real \<times> real) list)"
    by (simp add: square_points_def sample_cpoint_def)
  have len30: "3 < length (square_points 30)" by (simp add: square_points_def)
  have ring30: "2 \<le> length [(30, 0), (30, 30), (0 :: real, 30 :: real)]" by simp
  have sparse: "real (length (square_points 30)) / area (((0, 0) # [(30, 0), (30, 30), (0, 30)]) @ [(0, 0)]) \<le> 3"
    by (simp add: a30 square_points_def)
  have nz: "area (((0, 0) # [(30, 0), (30, 30), (0, 30)]) @ [(0::real, 0::real)]) \<noteq> 0"
    by (simp add: a30)
  from inst mem few len30 hull30 ring30 sparse nz a30 show ?thesis
    by (simp add: square_points_def)
qed

text \<open>
  C10: \<open>convex_hullify\<close> leaves the caller's point table as it was, rejected groups
  included: the tables returned by \<open>points.drop\<close> are discarded.
\<close>

theorem convex_hullify_keeps_points:
  "points (fst (convex_hullify H pts kp t0)) = pts"
  by (simp add: convex_hullify_def hullify_loop_points)

subsection \<open>Density clustering\<close>

lemma noise_rows_filtered:
  assumes "\<forall>l \<in> set labels. l < 0"
  shows "filter (\<lambda>ir. c_Classification (snd ir) \<ge> 0)
           (zip ns (map2 clustered_row mp labels)) = []"
proof -
  have "c_Classification r < 0" if "r \<in> set (map2 clustered_row mp labels)" for r
  proof -
    from that obtain p l where "(p, l) \<in> set (zip mp labels)" and r: "r = clustered_row p l"
      by auto
    then have "l \<in> set labels" by (meson set_zip_rightD)
    with assms r show ?thesis by (simp add: clustered_row_def)
  qed
  then have "\<not> c_Classification (snd ir) \<ge> 0"
    if "ir \<in> set (zip ns (map2 clustered_row mp labels))" for ir
    using that by (metis not_le prod.collapse set_zip_rightD)
  then show ?thesis by (simp add: filter_empty_conv)
qed

lemma masked_points_sample:
  "masked_points [sample_raw 0 0 5 1 2] = [sample_raw 0 0 5 1 2]"
  by (simp add: masked_points_def masks_def ground_mask_def n_returns_mask_def sample_raw_def)

text \<open>
  C4 (as the code has it): the stage has no guard for degenerate input.  An exception of
  the clusterer leaves \<open>hdbscan_on_points\<close> unchanged; only when the clusterer itself
  returns labels that are all noise does the stage end normally, with an empty table of
  clustered points.
\<close>

theorem hdbscan_on_points_no_guard:
  "(\<forall>e. fit mcs ms (xy_array xyz (masked_points raw)) = Inl e \<longrightarrow>
      hdbscan_on_points fit raw mcs ms xyz = Inl e) \<and>
   (\<forall>labels. fit mcs ms (xy_array xyz (masked_points raw)) = Inr labels \<longrightarrow>
      length labels = length (masked_points raw) \<longrightarrow> (\<forall>l \<in> set labels. l < 0) \<longrightarrow>
      hdbscan_on_points fit raw mcs ms xyz = Inr [])"
  by (simp add: hdbscan_on_points_def Let_def noise_rows_filtered)

theorem hdbscan_on_points_no_guard_witness:
  "fit_validating 5 5 (xy_array False (masked_points [])) = Inl ValueError \<and>
   hdbscan_on_points fit_validating [] 5 5 False = Inl ValueError \<and>
   fit_validating 5 5 (xy_array False (masked_points [sample_raw 0 0 5 1 2])) = Inr [- 1] \<and>
   hdbscan_on_points fit_validating [sample_raw 0 0 5 1 2] 5 5 False = Inr []"
proof -
  have a: "fit_validating 5 5 (xy_array False (masked_points [])) = Inl ValueError"
    by (simp add: fit_validating_def xy_array_def masked_points_def masks_def
        ground_mask_def n_returns_mask_def)
  have b: "fit_validating 5 5 (xy_array False (masked_points [sample_raw 0 0 5 1 2])) = Inr [- 1]"
    by (simp add: fit_validating_def xy_array_def masked_points_sample)
  from hdbscan_on_points_no_guard[of fit_validating 5 5 False "[]"] a
  have c: "hdbscan_on_points fit_validating [] 5 5 False = Inl ValueError"
    by blast
  from hdbscan_on_points_no_guard[of fit_validating 5 5 False "[sample_raw 0 0 5 1 2]"] b
  have d: "hdbscan_on_points fit_validating [sample_raw 0 0 5 1 2] 5 5 False = Inr []"
    by (simp add: masked_points_sample)
  from a b c d show ?thesis by blast
qed

text \<open>
  C4 as stated fails: on the empty point set a clusterer that validates its input raises,
  and the stage raises with it instead of yielding noise labels.
\<close>

theorem hdbscan_on_points_raises_on_empty:
  "hdbscan_on_points fit_validating [] 5 5 False = Inl ValueError"
  by (simp add: hdbscan_on_points_def fit_validating_def xy_array_def masked_points_def
      masks_def ground_mask_def n_returns_mask_def)

subsection \<open>Spatial join\<close>

lemma sjoin_left_Some:
  assumes "(i, l, Some jr) \<in> set (sjoin_left pred left right)"
  shows "(i, l) \<in> set left \<and> jr \<in> set right \<and> pred l (snd jr)"
proof -
  from assms obtain il where il: "il \<in> set left"
    and mem: "(i, l, Some jr) \<in> set (case filter (\<lambda>jr. pred (snd il) (snd jr)) right of
          [] \<Rightarrow> [(fst il, snd il, None)]
        | ms \<Rightarrow> map (\<lambda>jr. (fst il, snd il, Some jr)) ms)"
    by (auto simp: sjoin_left_def)
  show ?thesis
  proof (cases "filter (\<lambda>jr. pred (snd il) (snd jr)) right")
    case Nil
    with mem show ?thesis by simp
  next
    case (Cons m ms)
    with mem have "i = fst il" "l = snd il" "jr \<in> set (filter (\<lambda>jr. pred (snd il) (snd jr)) right)"
      by auto
    with il show ?thesis by auto
  qed
qed

lemma sjoin_left_left:
  assumes "(i, l, r) \<in> set (sjoin_left pred left right)"
  shows "(i, l) \<in> set left"
proof -
  from assms obtain il where il: "il \<in> set left"
    and mem: "(i, l, r) \<in> set (case filter (\<lambda>jr. pred (snd il) (snd jr)) right of
          [] \<Rightarrow> [(fst il, snd il, None)]
        | ms \<Rightarrow> map (\<lambda>jr. (fst il, snd il, Some jr)) ms)"
    by (auto simp: sjoin_left_def)
  then show ?thesis by (cases "filter (\<lambda>jr. pred (snd il) (snd jr)) right") auto
qed

lemma sjoin_left_None:
  assumes "(i, l, None) \<in> set (sjoin_left pred left right)"
  shows "\<forall>jr \<in> set right. \<not> pred l (snd jr)"
proof -
  from assms obtain il where il: "il \<in> set left"
    and mem: "(i, l, None) \<in> set (case filter (\<lambda>jr. pred (snd il) (snd jr)) right of
          [] \<Rightarrow> [(fst il, snd il, None)]
        | ms \<Rightarrow> map (\<lambda>jr. (fst il, snd il, Some jr)) ms)"
    by (auto simp: sjoin_left_def)
  show ?thesis
  proof (cases "filter (\<lambda>jr. pred (snd il) (snd jr)) right")
    case Nil
    with mem have "l = snd il" by simp
    with Nil show ?thesis by (auto simp: filter_empty_conv)
  next
    case (Cons m ms)
    with mem show ?thesis by auto
  qed
qed

lemma add_pid_row:
  assumes "(i, l) \<in> set (former_preprocess_now_add_pid pts)"
  shows "pid l = i \<and> i < length pts \<and> attrs l = pts ! i"
  using assms
  by (auto simp: former_preprocess_now_add_pid_def in_set_zip)

lemma find_points_in_polygons_row:
  assumes "(i, l, r) \<in> set (find_points_in_polygons meets raw polygon_df)"
  shows "\<exists>j poly. r = Some (j, poly) \<and> (j, poly) \<in> set polygon_df \<and>
           meets (X (attrs l), Y (attrs l)) (geometry poly) \<and> 0 \<le> xy_clusterID poly \<and>
           (i, l) \<in> set (former_preprocess_now_add_pid
              (map fst (filter (\<lambda>pg. \<not> snd pg) (zip raw (ground_mask raw)))))"
proof -
  let ?cd = "former_preprocess_now_add_pid
              (map fst (filter (\<lambda>pg. \<not> snd pg) (zip raw (ground_mask raw))))"
  let ?pred = "\<lambda>l r. meets (X (attrs l), Y (attrs l)) (geometry r)"
  from assms have mem: "(i, l, r) \<in> set (sjoin_left ?pred ?cd polygon_df)"
    and nn: "index_right (l, r) \<noteq> None"
    and xy: "(case joined_xy_clusterID (l, r) of None \<Rightarrow> False | Some c \<Rightarrow> c \<ge> 0)"
    by (auto simp: find_points_in_polygons_def Let_def)
  from nn obtain j poly where r: "r = Some (j, poly)"
    by (cases r) (auto simp: index_right_def)
  from xy r have "0 \<le> xy_clusterID poly" by (simp add: joined_xy_clusterID_def)
  moreover from sjoin_left_Some[OF mem[unfolded r]]
  have "(i, l) \<in> set ?cd" "(j, poly) \<in> set polygon_df"
    "meets (X (attrs l), Y (attrs l)) (geometry poly)"
    by auto
  ultimately show ?thesis using r by blast
qed

lemma cluster_points_subset:
  "set (map fst (filter (\<lambda>pg. \<not> snd pg) (zip raw (ground_mask raw)))) \<subseteq> set raw"
  by (auto dest: set_zip_leftD)

text \<open>
  C8: every row of the join's output carries the index of a polygon of \<open>polygon_df\<close>
  that meets the point's (x, y) under the join predicate, and the cluster id of that
  polygon, which is not negative.  Since every row has such a polygon, a point that meets
  no polygon has no row; the function has no error result.
\<close>

theorem find_points_in_polygons_sound:
  "\<forall>row \<in> set (find_points_in_polygons meets raw polygon_df).
     \<exists>j poly. index_right (snd row) = Some j \<and> (j, poly) \<in> set polygon_df \<and>
        meets (X (attrs (fst (snd row))), Y (attrs (fst (snd row)))) (geometry poly) \<and>
        joined_xy_clusterID (snd row) = Some (xy_clusterID poly) \<and> 0 \<le> xy_clusterID poly"
proof
  fix row
  assume mem: "row \<in> set (find_points_in_polygons meets raw polygon_df)"
  obtain i l r where row: "row = (i, l, r)" by (cases row)
  from find_points_in_polygons_row[OF mem[unfolded row]]
  obtain j poly where "r = Some (j, poly)" "(j, poly) \<in> set polygon_df"
    "meets (X (attrs l), Y (attrs l)) (geometry poly)" "0 \<le> xy_clusterID poly"
    by blast
  then show "\<exists>j poly. index_right (snd row) = Some j \<and> (j, poly) \<in> set polygon_df \<and>
        meets (X (attrs (fst (snd row))), Y (attrs (fst (snd row)))) (geometry poly) \<and>
        joined_xy_clusterID (snd row) = Some (xy_clusterID poly) \<and> 0 \<le> xy_clusterID poly"
    by (auto simp: row index_right_def joined_xy_clusterID_def)
qed

lemma join_inside_outside:
  "find_points_in_polygons point_in_ring
     [sample_raw (1 / 2) (1 / 2) 5 1 2, sample_raw 5 5 5 1 1] overlapping_polygons
   = [(0, \<lparr>pid = 0, attrs = sample_raw (1 / 2) (1 / 2) 5 1 2\<rparr>, Some (hd overlapping_polygons))]"
  by (simp add: find_points_in_polygons_def ground_mask_def sample_raw_def
      former_preprocess_now_add_pid_def sjoin_left_def overlapping_polygons_def
      point_in_ring_def index_right_def joined_xy_clusterID_def)

theorem find_points_in_polygons_sound_witness:
  "find_points_in_polygons point_in_ring
     [sample_raw (1 / 2) (1 / 2) 5 1 2, sample_raw 5 5 5 1 1] overlapping_polygons
   = [(0, \<lparr>pid = 0, attrs = sample_raw (1 / 2) (1 / 2) 5 1 2\<rparr>, Some (hd overlapping_polygons))] \<and>
   (\<exists>j poly. (j, poly) \<in> set overlapping_polygons \<and>
      point_in_ring (1 / 2, 1 / 2) (geometry poly) \<and> 0 \<le> xy_clusterID poly)"
proof -
  from find_points_in_polygons_sound[of point_in_ring
      "[sample_raw (1 / 2) (1 / 2) 5 1 2, sample_raw 5 5 5 1 1]" overlapping_polygons]
  have "\<exists>j poly. (j, poly) \<in> set overlapping_polygons \<and>
      point_in_ring (1 / 2, 1 / 2) (geometry poly) \<and> 0 \<le> xy_clusterID poly"
    unfolding join_inside_outside by (simp add: sample_raw_def) blast
  with join_inside_outside show ?thesis by blast
qed

subsection \<open>Rasterisation\<close>

text \<open>
  C3: the raster should hold every binned point.  With grid size 1/2 and the two points
  (0, 0) and (10, 0) the image gets 10 + 1 columns, the largest offset taken in world
  units, while the second point is binned to column 10 / (1/2) = 20: the assignment raises
  IndexError.
\<close>

theorem interpolate_df_index_error:
  "interpolate_df [(0, 0, 1), (10, 0, 1)] (1 / 2) = Inl IndexError"
  by code_simp

subsection \<open>Keys and factorization\<close>

lemma digit_char_inj: "a < 10 \<Longrightarrow> b < 10 \<Longrightarrow> digit_char a = digit_char b \<Longrightarrow> a = b"
proof -
  assume a: "a < 10" and b: "b < 10" and eq: "digit_char a = digit_char b"
  have d: "distinct ''0123456789''" by simp
  have l: "length ''0123456789'' = 10" by simp
  from eq have "''0123456789'' ! a = ''0123456789'' ! b" by (simp only: digit_char_def)
  with d a b l show "a = b" by (metis nth_eq_iff_index_eq)
qed

lemma digit_char_set: "d < 10 \<Longrightarrow> digit_char d \<in> set ''0123456789''"
proof -
  assume "d < 10"
  then have "d < length ''0123456789''" by simp
  then show ?thesis unfolding digit_char_def by (rule nth_mem)
qed

lemma str_nat_digits: "set (str_nat n) \<subseteq> set ''0123456789''"
proof (induction n rule: str_nat.induct)
  case (1 n)
  show ?case
  proof (cases "n < 10")
    case True
    then show ?thesis using digit_char_set[of n] by (subst str_nat.simps) simp
  next
    case False
    have "n mod 10 < 10" by simp
    from digit_char_set[OF this] 1[OF False] False show ?thesis
      by (subst str_nat.simps) simp
  qed
qed

lemma str_nat_nonempty: "str_nat n \<noteq> []"
  by (subst str_nat.simps) simp

lemma str_nat_inj: "str_nat m = str_nat n \<Longrightarrow> m = n"
proof (induction m arbitrary: n rule: str_nat.induct)
  case (1 m)
  show ?case
  proof (cases "m < 10")
    case True
    note m = this
    show ?thesis
    proof (cases "n < 10")
      case True
      with m "1.prems" have "digit_char m = digit_char n"
        by (simp add: str_nat.simps[of m] str_nat.simps[of n])
      with m True show ?thesis using digit_char_inj[of m n] by blast
    next
      case False
      with m "1.prems" have "[digit_char m] = str_nat (n div 10) @ [digit_char (n mod 10)]"
        by (simp add: str_nat.simps[of m] str_nat.simps[of n])
      then have "str_nat (n div 10) = []" by simp
      with str_nat_nonempty show ?thesis by blast
    qed
  next
    case False
    note m = this
    show ?thesis
    proof (cases "n < 10")
      case True
      with m "1.prems" have "str_nat (m div 10) @ [digit_char (m mod 10)] = [digit_char n]"
        by (simp add: str_nat.simps[of m] str_nat.simps[of n])
      then have "str_nat (m div 10) = []" by simp
      with str_nat_nonempty show ?thesis by blast
    next
      case False
      with m "1.prems"
      have "str_nat (m div 10) @ [digit_char (m mod 10)] = str_nat (n div 10) @ [digit_char (n mod 10)]"
        by (simp add: str_nat.simps[of m] str_nat.simps[of n])
      then have a: "str_nat (m div 10) = str_nat (n div 10)"
        and b: "digit_char (m mod 10) = digit_char (n mod 10)"
        by simp_all
      from "1.IH"[OF m a] have d: "m div 10 = n div 10" .
      have "m mod 10 < 10" "n mod 10 < 10" by simp_all
      from digit_char_inj[OF this b] have "m mod 10 = n mod 10" .
      with d show ?thesis by (metis div_mult_mod_eq)
    qed
  qed
qed

lemma str_nat_no_char: "c \<notin> set ''0123456789'' \<Longrightarrow> c \<notin> set (str_nat n)"
  using str_nat_digits[of n] by blast

lemma str_int_no_dot: "CHR ''.'' \<notin> set (str_int i)"
proof -
  have "CHR ''.'' \<notin> set (str_nat n)" for n
    by (rule str_nat_no_char) simp
  then show ?thesis by (simp add: str_int_def)
qed

lemma str_nat_no_minus: "str_nat n \<noteq> CHR ''-'' # s"
proof
  assume "str_nat n = CHR ''-'' # s"
  then have "CHR ''-'' \<in> set (str_nat n)" by simp
  moreover have "CHR ''-'' \<notin> set (str_nat n)"
    by (rule str_nat_no_char) simp
  ultimately show False by blast
qed

lemma str_int_inj: "str_int i = str_int j \<Longrightarrow> i = j"
proof -
  assume eq: "str_int i = str_int j"
  consider "i < 0" "j < 0" | "i < 0" "\<not> j < 0" | "\<not> i < 0" "j < 0" | "\<not> i < 0" "\<not> j < 0"
    by blast
  then show "i = j"
  proof cases
    case 1
    with eq have "str_nat (nat (- i)) = str_nat (nat (- j))" by (simp add: str_int_def)
    from str_nat_inj[OF this] 1 show ?thesis by simp
  next
    case 2
    with eq have "str_nat (nat j) = CHR ''-'' # str_nat (nat (- i))" by (simp add: str_int_def)
    with str_nat_no_minus show ?thesis by blast
  next
    case 3
    with eq have "str_nat (nat i) = CHR ''-'' # str_nat (nat (- j))" by (simp add: str_int_def)
    with str_nat_no_minus show ?thesis by blast
  next
    case 4
    with eq have "str_nat (nat i) = str_nat (nat j)" by (simp add: str_int_def)
    from str_nat_inj[OF this] 4 show ?thesis by simp
  qed
qed

lemma astype_str_inj: "astype_str a = astype_str b \<Longrightarrow> a = b"
proof (cases a; cases b)
  fix i j
  assume "astype_str a = astype_str b" "a = Some i" "b = Some j"
  then have "str_int i = str_int j" by (simp add: astype_str_def)
  with str_int_inj \<open>a = Some i\<close> \<open>b = Some j\<close> show "a = b" by blast
next
  fix i
  assume eq: "astype_str a = astype_str b" and "a = Some i" "b = None"
  then have "str_int i @ ''.0'' = ''nan''" by (simp add: astype_str_def)
  then have "last (str_int i @ ''.0'') = last ''nan''" by simp
  then show "a = b" by simp
next
  fix j
  assume eq: "astype_str a = astype_str b" and "a = None" "b = Some j"
  then have "str_int j @ ''.0'' = ''nan''" by (simp add: astype_str_def)
  then have "last (str_int j @ ''.0'') = last ''nan''" by simp
  then show "a = b" by simp
qed simp

lemma split_at_first:
  assumes "c \<notin> set a" and "c \<notin> set b" and "a @ c # r = b @ c # s"
  shows "a = b \<and> r = s"
proof -
  have ta: "takeWhile (\<lambda>x. x \<noteq> c) (a @ c # r) = a"
    using assms(1) by (induction a) auto
  have tb: "takeWhile (\<lambda>x. x \<noteq> c) (b @ c # s) = b"
    using assms(2) by (induction b) auto
  from ta tb assms(3) have "a = b" by simp
  with assms(3) show ?thesis by simp
qed

lemma combi_key_inj:
  assumes "astype_str (Some v) @ astype_str x = astype_str (Some w) @ astype_str y"
  shows "v = w \<and> x = y"
proof -
  from assms have eq: "str_int v @ CHR ''.'' # (CHR ''0'' # astype_str x)
      = str_int w @ CHR ''.'' # (CHR ''0'' # astype_str y)"
    by (simp add: astype_str_def)
  from split_at_first[OF str_int_no_dot[of v] str_int_no_dot[of w] eq]
  have both: "str_int v = str_int w \<and> CHR ''0'' # astype_str x = CHR ''0'' # astype_str y" .
  from both have "str_int v = str_int w" by (rule conjunct1)
  then have "v = w" by (rule str_int_inj)
  moreover from both have "astype_str x = astype_str y" by simp
  then have "x = y" by (rule astype_str_inj)
  ultimately show ?thesis by (rule conjI)
qed

lemma index_of_Some: "index_of us k = Some c \<Longrightarrow> c < length us \<and> us ! c = k"
  by (induction us arbitrary: c) (auto split: if_splits)

lemma index_of_None: "index_of us k = None \<longleftrightarrow> k \<notin> set us"
  by (induction us) auto

lemma length_factorize_from: "length (factorize_from u ks) = length ks"
  by (induction ks arbitrary: u) (auto split: option.splits)

text \<open>The keys known once the whole column has been read.\<close>

lemma factorize_from_uniques:
  assumes "distinct u"
  shows "\<exists>U. distinct U \<and> (\<exists>r. U = u @ r) \<and>
           (\<forall>i < length ks. factorize_from u ks ! i < length U \<and> U ! (factorize_from u ks ! i) = ks ! i)"
  using assms
proof (induction ks arbitrary: u)
  case Nil
  then show ?case by auto
next
  case (Cons k ks)
  show ?case
  proof (cases "index_of u k")
    case None
    then have "k \<notin> set u" by (simp add: index_of_None)
    with Cons.prems have "distinct (u @ [k])" by simp
    from Cons.IH[OF this] obtain U r where U: "distinct U" "U = (u @ [k]) @ r"
      and all: "\<forall>i < length ks. factorize_from (u @ [k]) ks ! i < length U \<and>
                  U ! (factorize_from (u @ [k]) ks ! i) = ks ! i"
      by blast
    have "factorize_from u (k # ks) ! i < length U \<and> U ! (factorize_from u (k # ks) ! i) = (k # ks) ! i"
      if "i < length (k # ks)" for i
    proof (cases i)
      case 0
      with None U show ?thesis by (simp add: nth_append)
    next
      case (Suc i')
      with that all None show ?thesis by simp
    qed
    with U show ?thesis by (intro exI[of _ U]) auto
  next
    case (Some c)
    from index_of_Some[OF this] have c: "c < length u" "u ! c = k" by simp_all
    from Cons.IH[OF Cons.prems] obtain U r where U: "distinct U" "U = u @ r"
      and all: "\<forall>i < length ks. factorize_from u ks ! i < length U \<and>
                  U ! (factorize_from u ks ! i) = ks ! i"
      by blast
    have "factorize_from u (k # ks) ! i < length U \<and> U ! (factorize_from u (k # ks) ! i) = (k # ks) ! i"
      if "i < length (k # ks)" for i
    proof (cases i)
      case 0
      with Some c U show ?thesis by (simp add: nth_append)
    next
      case (Suc i')
      with that all Some show ?thesis by simp
    qed
    with U show ?thesis by (intro exI[of _ U]) auto
  qed
qed

lemma factorize_eq_iff:
  assumes "i < length ks" "j < length ks"
  shows "factorize ks ! i = factorize ks ! j \<longleftrightarrow> ks ! i = ks ! j"
proof -
  from factorize_from_uniques[of "[]" ks] obtain U where U: "distinct U"
    and all: "\<forall>i < length ks. factorize ks ! i < length U \<and> U ! (factorize ks ! i) = ks ! i"
    unfolding factorize_def by auto
  from all assms have i: "factorize ks ! i < length U" "U ! (factorize ks ! i) = ks ! i"
    and j: "factorize ks ! j < length U" "U ! (factorize ks ! j) = ks ! j"
    by simp_all
  show ?thesis
  proof
    assume "factorize ks ! i = factorize ks ! j"
    with i(2) j(2) show "ks ! i = ks ! j" by simp
  next
    assume "ks ! i = ks ! j"
    with i(2) j(2) have "U ! (factorize ks ! i) = U ! (factorize ks ! j)" by simp
    with U i(1) j(1) show "factorize ks ! i = factorize ks ! j"
      by (simp add: nth_eq_iff_index_eq)
  qed
qed

lemma factorize_from_first_seen:
  assumes "distinct u" "i < length ks" "ks ! i \<notin> set u \<union> set (take i ks)"
  shows "factorize_from u ks ! i = card (set u \<union> set (take i ks))"
  using assms
proof (induction ks arbitrary: u i)
  case Nil
  then show ?case by simp
next
  case (Cons k ks)
  show ?case
  proof (cases i)
    case 0
    with Cons.prems have "k \<notin> set u" by simp
    then have "index_of u k = None" by (simp add: index_of_None)
    with 0 Cons.prems(1) show ?thesis by (simp add: distinct_card)
  next
    case (Suc i')
    with Cons.prems have i': "i' < length ks" and new: "ks ! i' \<notin> set u \<union> {k} \<union> set (take i' ks)"
      by auto
    show ?thesis
    proof (cases "index_of u k")
      case None
      then have "k \<notin> set u" by (simp add: index_of_None)
      with Cons.prems(1) have d: "distinct (u @ [k])" by simp
      from new have "ks ! i' \<notin> set (u @ [k]) \<union> set (take i' ks)" by simp
      from Cons.IH[OF d i' this] None Suc show ?thesis
        by (simp add: Un_commute insert_commute)
    next
      case (Some c)
      from index_of_Some[OF this] have "k \<in> set u" by (metis nth_mem)
      then have eq: "set u \<union> set (take i (k # ks)) = set u \<union> set (take i' ks)"
        by (auto simp: Suc)
      from new have "ks ! i' \<notin> set u \<union> set (take i' ks)" by simp
      from Cons.IH[OF Cons.prems(1) i' this] Some Suc eq show ?thesis by simp
    qed
  qed
qed

lemma factorize_first_seen:
  assumes "i < length ks" "ks ! i \<notin> set (take i ks)"
  shows "factorize ks ! i = card (set (take i ks))"
  using factorize_from_first_seen[of "[]" i ks] assms by (simp add: factorize_def)

subsection \<open>Polygon ids of a point\<close>

lemma in_concat_map: "a \<in> set xs \<Longrightarrow> x \<in> set (f a) \<Longrightarrow> x \<in> set (concat (map f xs))"
  by auto

lemma sjoin_left_complete:
  assumes "(i, l) \<in> set left" "jr \<in> set right" "pred l (snd jr)"
  shows "(i, l, Some jr) \<in> set (sjoin_left pred left right)"
proof -
  let ?ms = "filter (\<lambda>jr. pred l (snd jr)) right"
  from assms(2,3) have mem: "jr \<in> set ?ms" by simp
  then obtain m ms where ms: "?ms = m # ms" by (cases ?ms) auto
  from mem have "(i, l, Some jr) \<in> set (map (\<lambda>jr. (i, l, Some jr)) ?ms)"
    by (simp del: set_filter)
  then have blk: "(i, l, Some jr) \<in> set (case ?ms of [] \<Rightarrow> [(fst (i, l), snd (i, l), None)]
          | ms \<Rightarrow> map (\<lambda>jr. (fst (i, l), snd (i, l), Some jr)) ms)"
    unfolding ms by simp
  show ?thesis
    unfolding sjoin_left_def
    by (rule in_concat_map[OF assms(1)]) (use blk in simp)
qed

lemma add_pid_mem:
  assumes "i < length pts"
  shows "(i, \<lparr>pid = i, attrs = pts ! i\<rparr>) \<in> set (former_preprocess_now_add_pid pts)"
proof -
  from assms have "zip [0..<length pts] pts ! i = (i, pts ! i)" by simp
  moreover from assms have "zip [0..<length pts] pts ! i \<in> set (zip [0..<length pts] pts)"
    by (intro nth_mem) simp
  ultimately have "(i, pts ! i) \<in> set (zip [0..<length pts] pts)" by simp
  then have "(\<lambda>(i, p). (i, \<lparr>pid = i, attrs = p\<rparr>)) (i, pts ! i)
      \<in> set (map (\<lambda>(i, p). (i, \<lparr>pid = i, attrs = p\<rparr>)) (zip [0..<length pts] pts))"
    by (simp only: set_map image_eqI)
  then show ?thesis
    unfolding former_preprocess_now_add_pid_def by simp
qed

lemma find_points_in_polygons_complete:
  assumes "(i, l) \<in> set (former_preprocess_now_add_pid (cluster_points raw))"
    and "(j, poly) \<in> set polygon_df"
    and "meets (X (attrs l), Y (attrs l)) (geometry poly)"
    and "0 \<le> xy_clusterID poly"
  shows "(i, l, Some (j, poly)) \<in> set (find_points_in_polygons meets raw polygon_df)"
proof -
  from sjoin_left_complete[of i l _ "(j, poly)" polygon_df
      "\<lambda>l r. meets (X (attrs l), Y (attrs l)) (geometry r)", OF assms(1,2)] assms(3)
  have "(i, l, Some (j, poly)) \<in> set (sjoin_left (\<lambda>l r. meets (X (attrs l), Y (attrs l)) (geometry r))
           (former_preprocess_now_add_pid (cluster_points raw)) polygon_df)"
    by simp
  with assms(4) show ?thesis
    by (simp add: find_points_in_polygons_def Let_def cluster_points_def index_right_def
        joined_xy_clusterID_def)
qed

lemma find_points_in_polygons_ids:
  "(\<exists>r \<in> set (find_points_in_polygons meets raw polygon_df).
       pid (fst (snd r)) = i \<and> index_right (snd r) = Some j) \<longleftrightarrow>
   i < length (cluster_points raw) \<and>
   (\<exists>poly. (j, poly) \<in> set polygon_df \<and>
      meets (X (cluster_points raw ! i), Y (cluster_points raw ! i)) (geometry poly) \<and>
      0 \<le> xy_clusterID poly)"
proof
  assume "\<exists>r \<in> set (find_points_in_polygons meets raw polygon_df).
       pid (fst (snd r)) = i \<and> index_right (snd r) = Some j"
  then obtain i' l q where mem: "(i', l, q) \<in> set (find_points_in_polygons meets raw polygon_df)"
    and p: "pid l = i" and ir: "index_right (l, q) = Some j"
    by auto
  from find_points_in_polygons_row[OF mem]
  obtain j' poly where q: "q = Some (j', poly)" and pm: "(j', poly) \<in> set polygon_df"
    and m: "meets (X (attrs l), Y (attrs l)) (geometry poly)" and xy: "0 \<le> xy_clusterID poly"
    and cd: "(i', l) \<in> set (former_preprocess_now_add_pid (cluster_points raw))"
    unfolding cluster_points_def by blast
  from ir q have j: "j' = j" by (simp add: index_right_def)
  from add_pid_row[OF cd] p have "i < length (cluster_points raw)" "attrs l = cluster_points raw ! i"
    by auto
  with pm m xy j show "i < length (cluster_points raw) \<and>
   (\<exists>poly. (j, poly) \<in> set polygon_df \<and>
      meets (X (cluster_points raw ! i), Y (cluster_points raw ! i)) (geometry poly) \<and>
      0 \<le> xy_clusterID poly)"
    by auto
next
  assume "i < length (cluster_points raw) \<and>
   (\<exists>poly. (j, poly) \<in> set polygon_df \<and>
      meets (X (cluster_points raw ! i), Y (cluster_points raw ! i)) (geometry poly) \<and>
      0 \<le> xy_clusterID poly)"
  then obtain poly where i: "i < length (cluster_points raw)" and pm: "(j, poly) \<in> set polygon_df"
    and m: "meets (X (cluster_points raw ! i), Y (cluster_points raw ! i)) (geometry poly)"
    and xy: "0 \<le> xy_clusterID poly"
    by blast
  let ?l = "\<lparr>pid = i, attrs = cluster_points raw ! i\<rparr>"
  from find_points_in_polygons_complete[OF add_pid_mem[OF i] pm _ xy, of meets] m
  have "(i, ?l, Some (j, poly)) \<in> set (find_points_in_polygons meets raw polygon_df)"
    by simp
  then show "\<exists>r \<in> set (find_points_in_polygons meets raw polygon_df).
       pid (fst (snd r)) = i \<and> index_right (snd r) = Some j"
    by (intro bexI[of _ "(i, ?l, Some (j, poly))"]) (simp_all add: index_right_def)
qed

text \<open>
  C9 (as the code has it): in the output of the join, the point with point-id \<open>i\<close>
  carries the polygon id \<open>j\<close> exactly when \<open>i\<close> numbers a non-ground point and polygon
  \<open>j\<close> has a cluster id that is not negative and meets the point's (x, y).  So a
  point-id has at most one polygon id where no two such polygons meet the point, and a
  point that two of them meet carries both ids.
\<close>

theorem find_points_in_polygons_polygon_ids:
  "(let out = find_points_in_polygons meets raw polygon_df;
        cp = cluster_points raw;
        ids = {j. \<exists>r \<in> set out. pid (fst (snd r)) = i \<and> index_right (snd r) = Some j};
        inside = {j. i < length cp \<and>
                    (\<exists>poly. (j, poly) \<in> set polygon_df \<and>
                       meets (X (cp ! i), Y (cp ! i)) (geometry poly) \<and> 0 \<le> xy_clusterID poly)}
    in ids = inside \<and>
       ((\<forall>j1 j2. j1 \<in> inside \<longrightarrow> j2 \<in> inside \<longrightarrow> j1 = j2) \<longrightarrow> (\<exists>j. ids \<subseteq> {j})) \<and>
       (\<forall>j1 j2. j1 \<in> inside \<longrightarrow> j2 \<in> inside \<longrightarrow> j1 \<noteq> j2 \<longrightarrow> {j1, j2} \<subseteq> ids))"
proof -
  define ids where "ids = {j. \<exists>r \<in> set (find_points_in_polygons meets raw polygon_df).
                   pid (fst (snd r)) = i \<and> index_right (snd r) = Some j}"
  define inside where "inside = {j. i < length (cluster_points raw) \<and>
                    (\<exists>poly. (j, poly) \<in> set polygon_df \<and>
                       meets (X (cluster_points raw ! i), Y (cluster_points raw ! i)) (geometry poly) \<and>
                       0 \<le> xy_clusterID poly)}"
  have eq: "ids = inside"
    unfolding ids_def inside_def
    using find_points_in_polygons_ids[of meets raw polygon_df i] by blast
  have one: "\<exists>j. ids \<subseteq> {j}" if "\<forall>j1 j2. j1 \<in> inside \<longrightarrow> j2 \<in> inside \<longrightarrow> j1 = j2"
    using that unfolding eq by blast
  have two: "{j1, j2} \<subseteq> ids" if "j1 \<in> inside" "j2 \<in> inside" for j1 j2
    using that unfolding eq by blast
  from eq one two
  have "ids = inside \<and>
       ((\<forall>j1 j2. j1 \<in> inside \<longrightarrow> j2 \<in> inside \<longrightarrow> j1 = j2) \<longrightarrow> (\<exists>j. ids \<subseteq> {j})) \<and>
       (\<forall>j1 j2. j1 \<in> inside \<longrightarrow> j2 \<in> inside \<longrightarrow> j1 \<noteq> j2 \<longrightarrow> {j1, j2} \<subseteq> ids)"
    by blast
  then show ?thesis unfolding Let_def ids_def inside_def .
qed


lemma join_sample_output:
  "find_points_in_polygons point_in_ring join_raw_points overlapping_polygons =
     [(0, \<lparr>pid = 0, attrs = sample_raw (3 / 2) (3 / 2) 5 1 2\<rparr>, Some (overlapping_polygons ! 0)),
      (0, \<lparr>pid = 0, attrs = sample_raw (3 / 2) (3 / 2) 5 1 2\<rparr>, Some (overlapping_polygons ! 1)),
      (1, \<lparr>pid = 1, attrs = sample_raw (1 / 2) (1 / 2) 5 1 2\<rparr>, Some (overlapping_polygons ! 0))]"
  by (simp add: find_points_in_polygons_def join_raw_points_def ground_mask_def sample_raw_def
      former_preprocess_now_add_pid_def sjoin_left_def overlapping_polygons_def
      point_in_ring_def index_right_def joined_xy_clusterID_def)

lemma join_sample_ids:
  "{j. \<exists>r \<in> set (find_points_in_polygons point_in_ring join_raw_points overlapping_polygons).
         pid (fst (snd r)) = 0 \<and> index_right (snd r) = Some j} = {0, 1}"
  "{j. \<exists>r \<in> set (find_points_in_polygons point_in_ring join_raw_points overlapping_polygons).
         pid (fst (snd r)) = 1 \<and> index_right (snd r) = Some j} = {0}"
  unfolding join_sample_output
  by (auto simp: index_right_def overlapping_polygons_def)

theorem find_points_in_polygons_polygon_ids_witness:
  "{j. 0 < length (cluster_points join_raw_points) \<and>
       (\<exists>poly. (j, poly) \<in> set overlapping_polygons \<and>
          point_in_ring (X (cluster_points join_raw_points ! 0), Y (cluster_points join_raw_points ! 0))
            (geometry poly) \<and> 0 \<le> xy_clusterID poly)} = {0, 1} \<and>
   {0, 1} \<subseteq> {j. \<exists>r \<in> set (find_points_in_polygons point_in_ring join_raw_points
                        overlapping_polygons).
                 pid (fst (snd r)) = 0 \<and> index_right (snd r) = Some j} \<and>
   {j. 1 < length (cluster_points join_raw_points) \<and>
       (\<exists>poly. (j, poly) \<in> set overlapping_polygons \<and>
          point_in_ring (X (cluster_points join_raw_points ! 1), Y (cluster_points join_raw_points ! 1))
            (geometry poly) \<and> 0 \<le> xy_clusterID poly)} = {0} \<and>
   (\<exists>k. {j. \<exists>r \<in> set (find_points_in_polygons point_in_ring join_raw_points
                        overlapping_polygons).
                 pid (fst (snd r)) = 1 \<and> index_right (snd r) = Some j} \<subseteq> {k})"
proof -
  define ids where "ids = (\<lambda>i. {j. \<exists>r \<in> set (find_points_in_polygons point_in_ring
      join_raw_points overlapping_polygons). pid (fst (snd r)) = i \<and> index_right (snd r) = Some j})"
  define inside where "inside = (\<lambda>i. {j. i < length (cluster_points join_raw_points) \<and>
       (\<exists>poly. (j, poly) \<in> set overlapping_polygons \<and>
          point_in_ring (X (cluster_points join_raw_points ! i), Y (cluster_points join_raw_points ! i))
            (geometry poly) \<and> 0 \<le> xy_clusterID poly)})"
  have inst: "ids i = inside i \<and>
       ((\<forall>j1 j2. j1 \<in> inside i \<longrightarrow> j2 \<in> inside i \<longrightarrow> j1 = j2) \<longrightarrow> (\<exists>j. ids i \<subseteq> {j})) \<and>
       (\<forall>j1 j2. j1 \<in> inside i \<longrightarrow> j2 \<in> inside i \<longrightarrow> j1 \<noteq> j2 \<longrightarrow> {j1, j2} \<subseteq> ids i)" for i
    using find_points_in_polygons_polygon_ids[of point_in_ring join_raw_points
        overlapping_polygons i]
    unfolding Let_def ids_def inside_def .
  have ids0: "ids 0 = {0, 1}" and ids1: "ids 1 = {0}"
    unfolding ids_def using join_sample_ids by simp_all
  from inst[of 0] ids0 have in0: "inside 0 = {0, 1}" by simp
  from inst[of 1] ids1 have in1: "inside 1 = {0}" by simp
  have "(0::nat) \<in> inside 0" "(1::nat) \<in> inside 0" "(0::nat) \<noteq> 1"
    unfolding in0 by simp_all
  with inst[of 0] have both: "{0, 1} \<subseteq> ids 0" by blast
  have "\<forall>j1 j2. j1 \<in> inside 1 \<longrightarrow> j2 \<in> inside 1 \<longrightarrow> j1 = j2"
    unfolding in1 by simp
  with inst[of 1] have one: "\<exists>k. ids 1 \<subseteq> {k}" by blast
  from in0 both in1 one show ?thesis
    unfolding ids_def inside_def by blast
qed

text \<open>
  C9 as stated fails: a point in the overlap of two polygons is in the output twice,
  under the same point-id, once with each polygon id.
\<close>

theorem find_points_in_polygons_two_polygons:
  "map (\<lambda>j. (pid (fst (snd j)), index_right (snd j)))
     (find_points_in_polygons point_in_ring [sample_raw (3 / 2) (3 / 2) 5 1 2]
        overlapping_polygons)
   = [(0, Some 0), (0, Some 1)]"
  by (simp add: find_points_in_polygons_def ground_mask_def sample_raw_def
      former_preprocess_now_add_pid_def sjoin_left_def overlapping_polygons_def
      point_in_ring_def index_right_def joined_xy_clusterID_def)

subsection \<open>Seeded clustering\<close>

lemma kmean_cluster_group_snd:
  "snd (kmean_cluster_group peak_local_max fit coords grp min_dist relative_threshold round_val)
     = Inl TypeError"
  by (simp add: kmean_cluster_group_def py_call_keywords_def find_n_clusters_peaks_params_def)

text \<open>
  The two estimator calls behind the peak detection: with seed coordinates the estimator
  gets them as initial centroids and \<open>max_iter = 100\<close>, without it gets the default
  initialisation and \<open>max_iter = 1\<close>.
\<close>

lemma kmeans_for_peaks_iterations:
  "kmeans_for_peaks fit coords d (n, c # cs) =
     (coords @ c # cs, fit \<lparr>n_clusters = n, max_iter = 100, init = InitArray (c # cs)\<rparr> d) \<and>
   kmeans_for_peaks fit coords d (n, []) =
     (coords, fit \<lparr>n_clusters = n, max_iter = 1, init = KMeansPlusPlus\<rparr> d)"
  by (simp add: kmeans_for_peaks_def)

text \<open>
  C2: the clustering step should initialise the centroids from the seeds and run one
  iteration, or use a standard initialisation and up to 100 iterations.  The method calls
  the peak detection with the keyword \<open>relative_threshold\<close>, which is not a parameter of
  \<open>find_n_clusters_peaks\<close>: on every group it raises TypeError and leaves
  \<open>self.tree_coords\<close> as it was, so no estimator is built or fitted.
\<close>

theorem kmean_cluster_group_raises:
  "kmean_cluster_group peak_local_max fit coords grp min_dist relative_threshold round_val
     = (coords, Inl TypeError)"
  by (simp add: kmean_cluster_group_def py_call_keywords_def find_n_clusters_peaks_params_def)

subsection \<open>Label fusion\<close>

lemma update_labs_fst: "update_labs l n = Inr l' \<Longrightarrow> map fst l' = map fst l"
proof -
  assume "update_labs l n = Inr l'"
  then have l': "l' = map (\<lambda>pl. case map_of n (fst pl) of None \<Rightarrow> pl | Some v \<Rightarrow> (fst pl, v)) l"
    by (simp add: update_labs_def split: if_splits)
  have "fst (case map_of n (fst pl) of None \<Rightarrow> pl | Some v \<Rightarrow> (fst pl, v)) = fst pl" for pl
    by (cases "map_of n (fst pl)") simp_all
  with l' show ?thesis by (simp add: comp_def)
qed

lemma kmean_loop_fst:
  "kmean_loop pdal plm fit tdf md rt rv gs st = Inr st' \<Longrightarrow> map fst (labs st') = map fst (labs st)"
proof (induction gs arbitrary: st)
  case Nil
  then show ?case by simp
next
  case (Cons g gs)
  obtain name grp where g: "g = (name, grp)" by (cases g)
  from Cons.prems obtain st1 where step: "kmean_loop pdal plm fit tdf md rt rv gs st1 = Inr st'"
    and fst1: "map fst (labs st1) = map fst (labs st)"
    by (auto simp: g Let_def split: sum.splits if_splits dest: update_labs_fst)
  from Cons.IH[OF step] fst1 show ?case by simp
qed

lemma combi_ids_nth:
  assumes "length vals = length rows" "i < length rows"
  shows "combi_ids rows vals ! i = astype_str (Some (vals ! i)) @ astype_str (row_xy (rows ! i))"
  using assms by (simp add: combi_ids_def)

lemma kmean_cluster_rows:
  assumes "kmean_cluster pdal plm fit tdf coords rows md rt rv = Inr (tc, out)"
  shows "\<exists>ls. length ls = length rows \<and> length out = length rows \<and>
           (\<forall>i < length rows. out ! i =
              \<lparr>source = rows ! i, value_clusterID = ls ! i * 10,
               final_Classification =
                 int (factorize (combi_ids rows (map (\<lambda>l. l * 10) ls)) ! i)\<rparr>)"
proof -
  from assms obtain st where loop: "kmean_loop pdal plm fit tdf md rt rv (groupby_xy rows)
             \<lparr>labs = map (\<lambda>r. (row_pid r, 0)) rows, tree_coords = coords\<rparr> = Inr st"
    and out: "out = map (\<lambda>(r, v, c). \<lparr>source = r, value_clusterID = v, final_Classification = int c\<rparr>)
                     (zip rows (zip (map (\<lambda>pl. snd pl * 10) (labs st))
                        (factorize (combi_ids rows (map (\<lambda>pl. snd pl * 10) (labs st))))))"
    by (auto simp: kmean_cluster_def Let_def split: sum.splits)
  let ?ls = "map snd (labs st)"
  have vals: "map (\<lambda>pl. snd pl * 10) (labs st) = map (\<lambda>l. l * 10) ?ls"
    by (simp add: comp_def)
  from kmean_loop_fst[OF loop] have "length (labs st) = length rows"
    by (metis kmean_state.select_convs(1) length_map)
  then have len: "length ?ls = length rows" by simp
  have lk: "length (combi_ids rows (map (\<lambda>l. l * 10) ?ls)) = length rows"
    using len by (simp add: combi_ids_def)
  have lc: "length (factorize (combi_ids rows (map (\<lambda>l. l * 10) ?ls))) = length rows"
    using lk by (simp add: factorize_def length_factorize_from)
  from out vals len lc have lo: "length out = length rows" by simp
  have "out ! i = \<lparr>source = rows ! i, value_clusterID = ?ls ! i * 10,
               final_Classification = int (factorize (combi_ids rows (map (\<lambda>l. l * 10) ?ls)) ! i)\<rparr>"
    if "i < length rows" for i
    using that len lc unfolding out vals by simp
  with len lo show ?thesis by blast
qed

lemma kmean_cluster_fusion:
  assumes "kmean_cluster pdal plm fit tdf coords rows md rt rv = Inr (tc, out)"
    and "i < length out" and "j < length out"
  shows "(final_Classification (out ! i) = final_Classification (out ! j) \<longleftrightarrow>
            value_clusterID (out ! i) div 10 = value_clusterID (out ! j) div 10 \<and>
            row_xy (source (out ! i)) = row_xy (source (out ! j))) \<and>
         10 dvd value_clusterID (out ! i) \<and>
         (let pairs = map (\<lambda>r. (value_clusterID r, row_xy (source r))) out
          in pairs ! i \<notin> set (take i pairs) \<longrightarrow>
             final_Classification (out ! i) = int (card (set (take i pairs))))"
proof -
  from kmean_cluster_rows[OF assms(1)] obtain ls where len: "length ls = length rows"
    and lo: "length out = length rows"
    and nth: "\<forall>i < length rows. out ! i =
              \<lparr>source = rows ! i, value_clusterID = ls ! i * 10,
               final_Classification =
                 int (factorize (combi_ids rows (map (\<lambda>l. l * 10) ls)) ! i)\<rparr>"
    by blast
  let ?vals = "map (\<lambda>l. l * 10) ls"
  let ?keys = "combi_ids rows ?vals"
  let ?pairs = "map (\<lambda>r. (value_clusterID r, row_xy (source r))) out"
  define key :: "int \<times> int option \<Rightarrow> string"
    where "key = (\<lambda>p. astype_str (Some (fst p)) @ astype_str (snd p))"
  have lk: "length ?keys = length rows" using len by (simp add: combi_ids_def)
  have i: "i < length rows" and j: "j < length rows" using assms(2,3) lo by simp_all
  have pair: "?pairs ! k = (ls ! k * 10, row_xy (rows ! k))" if "k < length rows" for k
    using that nth lo by simp
  have keyk: "?keys ! k = key (?pairs ! k)" if "k < length rows" for k
    using that len combi_ids_nth[of ?vals rows k] pair[OF that] by (simp add: key_def)
  have keys: "?keys = map key ?pairs"
    by (rule nth_equalityI) (simp_all add: lk lo keyk)
  have inj: "inj key"
  proof (rule injI)
    fix p q :: "int \<times> int option"
    assume "key p = key q"
    then have "astype_str (Some (fst p)) @ astype_str (snd p)
        = astype_str (Some (fst q)) @ astype_str (snd q)"
      by (simp add: key_def)
    from combi_key_inj[OF this] show "p = q" by (simp add: prod_eq_iff)
  qed
  have fin: "final_Classification (out ! k) = int (factorize ?keys ! k)" if "k < length rows" for k
    using that nth by simp
  have "(final_Classification (out ! i) = final_Classification (out ! j)) =
        (?keys ! i = ?keys ! j)"
    using fin[OF i] fin[OF j] factorize_eq_iff[of i ?keys j] i j lk by simp
  also have "\<dots> = (?pairs ! i = ?pairs ! j)"
    unfolding keyk[OF i] keyk[OF j] using inj by (rule inj_eq)
  also have "\<dots> = (value_clusterID (out ! i) div 10 = value_clusterID (out ! j) div 10 \<and>
            row_xy (source (out ! i)) = row_xy (source (out ! j)))"
    using pair[OF i] pair[OF j] nth i j by simp
  finally have first: "final_Classification (out ! i) = final_Classification (out ! j) \<longleftrightarrow>
            value_clusterID (out ! i) div 10 = value_clusterID (out ! j) div 10 \<and>
            row_xy (source (out ! i)) = row_xy (source (out ! j))" .
  have second: "10 dvd value_clusterID (out ! i)" using nth i by simp
  have third: "final_Classification (out ! i) = int (card (set (take i ?pairs)))"
    if new: "?pairs ! i \<notin> set (take i ?pairs)"
  proof -
    have tk: "take i ?keys = map key (take i ?pairs)" by (simp add: keys take_map)
    have "?keys ! i \<notin> set (take i ?keys)"
    proof
      assume "?keys ! i \<in> set (take i ?keys)"
      then have "key (?pairs ! i) \<in> key ` set (take i ?pairs)"
        unfolding keyk[OF i] tk by simp
      then have "?pairs ! i \<in> set (take i ?pairs)"
        unfolding inj_image_mem_iff[OF inj] .
      with new show False by blast
    qed
    from factorize_first_seen[OF _ this] i lk
    have "factorize ?keys ! i = card (set (take i ?keys))" by simp
    also have "\<dots> = card (key ` set (take i ?pairs))" by (simp add: tk)
    also have "\<dots> = card (set (take i ?pairs))"
      by (rule card_image) (rule inj_on_subset[OF inj subset_UNIV])
    finally show ?thesis using fin[OF i] by simp
  qed
  from first second third show ?thesis unfolding Let_def by blast
qed

text \<open>
  C5: in the table that \<open>kmean_cluster\<close> returns, two rows have the same final
  \<open>Classification\<close> exactly when they have the same sub-cluster label (the column
  \<open>value_clusterID\<close> is ten times that label) and the same \<open>xy_clusterID\<close>.  The ids
  follow the order of first appearance: a row whose pair was not seen in an earlier row
  gets the number of distinct pairs seen before it, so the same rows in the same order get
  the same ids.
\<close>

theorem label_fusion_iff:
  assumes "kmean_cluster pdal plm fit tdf coords rows md rt rv = Inr (tc, out)"
    and "i < length out" and "j < length out"
  shows "(final_Classification (out ! i) = final_Classification (out ! j) \<longleftrightarrow>
            value_clusterID (out ! i) div 10 = value_clusterID (out ! j) div 10 \<and>
            row_xy (source (out ! i)) = row_xy (source (out ! j))) \<and>
         10 dvd value_clusterID (out ! i) \<and>
         (let pairs = map (\<lambda>r. (value_clusterID r, row_xy (source r))) out
          in pairs ! i \<notin> set (take i pairs) \<longrightarrow>
             final_Classification (out ! i) = int (card (set (take i pairs))))"
  using kmean_cluster_fusion[OF assms] .

subsection \<open>Labels of polygons that are too small\<close>

lemma update_labs_nth:
  assumes "update_labs l n = Inr l'" "k < length l"
  shows "l' ! k = (case map_of n (fst (l ! k)) of None \<Rightarrow> l ! k | Some v \<Rightarrow> (fst (l ! k), v))"
proof -
  from assms(1)
  have "l' = map (\<lambda>pl. case map_of n (fst pl) of None \<Rightarrow> pl | Some v \<Rightarrow> (fst pl, v)) l"
    by (simp add: update_labs_def split: if_splits)
  with assms(2) show ?thesis by simp
qed

lemma map_of_minus_one:
  "map_of (map (\<lambda>r. (row_pid r, - 1 :: int)) grp) p =
     (if p \<in> row_pid ` set grp then Some (- 1) else None)"
  by (induction grp) auto

text \<open>
  A loop that ends normally took the second branch for its first polygon: the first
  branch ends in the exception of \<open>kmean_cluster_group\<close>.
\<close>

lemma kmean_loop_step:
  assumes "kmean_loop pdal plm fit tdf md rt rv ((name, grp) # rest) st = Inr st'"
  shows "\<exists>l'. update_labs (labs st) (map (\<lambda>r. (row_pid r, - 1)) grp) = Inr l' \<and>
           kmean_loop pdal plm fit tdf md rt rv rest (st\<lparr>labs := l'\<rparr>) = Inr st'"
proof -
  from assms obtain a where a: "tree_area tdf name = Inr a"
    by (cases "tree_area tdf name") simp_all
  show ?thesis
  proof (cases "name \<ge> 0 \<and> a \<ge> 2 \<and> length grp \<ge> 10")
    case True
    with assms a show ?thesis
      by (simp add: Let_def kmean_cluster_group_snd)
  next
    case False
    with assms a show ?thesis
      by (cases "update_labs (labs st) (map (\<lambda>r. (row_pid r, - 1)) grp)") auto
  qed
qed

text \<open>A polygon that passes the test ends the loop with the exception of its clustering.\<close>

lemma kmean_loop_qualifying_raises:
  assumes "tree_area tdf name = Inr a" "0 \<le> name" "2 \<le> a" "10 \<le> length grp"
  shows "kmean_loop pdal plm fit tdf md rt rv ((name, grp) # rest) st = Inl TypeError"
  using assms by (simp add: Let_def kmean_cluster_group_snd)

lemma kmean_loop_keeps_minus_one:
  assumes "kmean_loop pdal plm fit tdf md rt rv gs st = Inr st'"
    and "k < length (labs st)" and "snd (labs st ! k) = - 1"
  shows "snd (labs st' ! k) = - 1"
  using assms
proof (induction gs arbitrary: st)
  case Nil
  then show ?case by simp
next
  case (Cons g gs)
  obtain name grp where g: "g = (name, grp)" by (cases g)
  from kmean_loop_step[OF Cons.prems(1)[unfolded g]]
  obtain l' where upd: "update_labs (labs st) (map (\<lambda>r. (row_pid r, - 1)) grp) = Inr l'"
    and rest: "kmean_loop pdal plm fit tdf md rt rv gs (st\<lparr>labs := l'\<rparr>) = Inr st'"
    by blast
  from update_labs_fst[OF upd] Cons.prems(2) have k1: "k < length (labs (st\<lparr>labs := l'\<rparr>))"
    by (metis kmean_state.select_convs(1) kmean_state.surjective kmean_state.update_convs(1) length_map)
  from update_labs_nth[OF upd Cons.prems(2)] Cons.prems(3)
  have "snd (labs (st\<lparr>labs := l'\<rparr>) ! k) = - 1"
    by (simp add: map_of_minus_one)
  from Cons.IH[OF rest k1 this] show ?case .
qed

lemma kmean_loop_grouped_minus_one:
  assumes "kmean_loop pdal plm fit tdf md rt rv gs st = Inr st'"
    and "k < length (labs st)" and "(name, grp) \<in> set gs"
    and "fst (labs st ! k) \<in> row_pid ` set grp"
  shows "snd (labs st' ! k) = - 1"
  using assms
proof (induction gs arbitrary: st)
  case Nil
  then show ?case by simp
next
  case (Cons g gs)
  obtain n0 g0 where g: "g = (n0, g0)" by (cases g)
  from kmean_loop_step[OF Cons.prems(1)[unfolded g]]
  obtain l' where upd: "update_labs (labs st) (map (\<lambda>r. (row_pid r, - 1)) g0) = Inr l'"
    and rest: "kmean_loop pdal plm fit tdf md rt rv gs (st\<lparr>labs := l'\<rparr>) = Inr st'"
    by blast
  let ?st1 = "st\<lparr>labs := l'\<rparr>"
  have l1: "labs ?st1 = l'" by simp
  from update_labs_fst[OF upd] Cons.prems(2) have k1: "k < length (labs ?st1)"
    unfolding l1 by (metis length_map)
  from update_labs_fst[OF upd] Cons.prems(2) have fst1: "fst (labs ?st1 ! k) = fst (labs st ! k)"
    unfolding l1 by (metis length_map nth_map)
  show ?case
  proof (cases "(name, grp) = (n0, g0)")
    case True
    with Cons.prems(4) have "fst (labs st ! k) \<in> row_pid ` set g0" by simp
    with update_labs_nth[OF upd Cons.prems(2)] have "snd (labs ?st1 ! k) = - 1"
      by (simp add: map_of_minus_one)
    from kmean_loop_keeps_minus_one[OF rest k1 this] show ?thesis .
  next
    case False
    with Cons.prems(3) g have mem: "(name, grp) \<in> set gs" by auto
    from Cons.prems(4) fst1 have "fst (labs ?st1 ! k) \<in> row_pid ` set grp" by simp
    from Cons.IH[OF rest k1 mem this] show ?thesis .
  qed
qed

lemma groupby_xy_mem:
  assumes "r \<in> set rows" "row_xy r = Some name"
  shows "(name, filter (\<lambda>r. row_xy r = Some name) rows) \<in> set (groupby_xy rows)"
proof -
  from assms have "name \<in> set (List.map_filter row_xy rows)"
    by (induction rows) (auto split: option.splits)
  then show ?thesis by (simp add: groupby_xy_def)
qed

lemma kmean_cluster_labs:
  assumes "kmean_cluster pdal plm fit tdf coords rows md rt rv = Inr (tc, out)"
  shows "\<exists>st. kmean_loop pdal plm fit tdf md rt rv (groupby_xy rows)
             \<lparr>labs = map (\<lambda>r. (row_pid r, 0)) rows, tree_coords = coords\<rparr> = Inr st \<and>
           length (labs st) = length rows \<and> length out = length rows \<and>
           (\<forall>i < length rows. source (out ! i) = rows ! i \<and>
              value_clusterID (out ! i) = snd (labs st ! i) * 10)"
proof -
  from assms obtain st where loop: "kmean_loop pdal plm fit tdf md rt rv (groupby_xy rows)
             \<lparr>labs = map (\<lambda>r. (row_pid r, 0)) rows, tree_coords = coords\<rparr> = Inr st"
    and out: "out = map (\<lambda>(r, v, c). \<lparr>source = r, value_clusterID = v, final_Classification = int c\<rparr>)
                     (zip rows (zip (map (\<lambda>pl. snd pl * 10) (labs st))
                        (factorize (combi_ids rows (map (\<lambda>pl. snd pl * 10) (labs st))))))"
    by (auto simp: kmean_cluster_def Let_def split: sum.splits)
  from kmean_loop_fst[OF loop] have len: "length (labs st) = length rows"
    by (metis kmean_state.select_convs(1) length_map)
  have lc: "length (factorize (combi_ids rows (map (\<lambda>pl. snd pl * 10) (labs st)))) = length rows"
    using len by (simp add: factorize_def length_factorize_from combi_ids_def)
  from out len lc have lo: "length out = length rows" by simp
  have "source (out ! i) = rows ! i \<and> value_clusterID (out ! i) = snd (labs st ! i) * 10"
    if "i < length rows" for i
    using that len lc unfolding out by simp
  with loop len lo show ?thesis by blast
qed

lemma first_occurrence:
  "i < length xs \<Longrightarrow> \<exists>j \<le> i. xs ! j = xs ! i \<and> xs ! j \<notin> set (take j xs)"
proof (induction i rule: less_induct)
  case (less i)
  show ?case
  proof (cases "xs ! i \<in> set (take i xs)")
    case False
    then show ?thesis by (intro exI[of _ i]) simp
  next
    case True
    then obtain k where k: "k < length (take i xs)" "take i xs ! k = xs ! i"
      by (auto simp: in_set_conv_nth)
    with less.prems have ki: "k < i" and eq: "xs ! k = xs ! i" by simp_all
    from ki less.prems have "k < length xs" by simp
    from less.IH[OF ki this] eq ki show ?thesis
      by (metis le_trans less_imp_le)
  qed
qed

text \<open>
  C1 (as the code has it): when \<open>kmean_cluster\<close> returns, a point of a polygon with area
  below 2, or with fewer than 10 points, has the sub-cluster label -1, that is
  \<open>value_clusterID = -10\<close>.  Its final \<open>Classification\<close> is not -1: it is the
  first-seen id of its pair of \<open>value_clusterID\<close> and \<open>xy_clusterID\<close>, the number of
  distinct pairs in the rows before the first row with that pair.
\<close>

theorem kmean_cluster_small_polygon:
  assumes "kmean_cluster pdal plm fit tdf coords rows md rt rv = Inr (tc, out)"
    and "i < length out"
    and "row_xy (source (out ! i)) = Some name"
    and "tree_area tdf name = Inr a"
    and "a < 2 \<or> length (filter (\<lambda>r. row_xy r = Some name) rows) < 10"
  shows "value_clusterID (out ! i) = - 10 \<and>
         (let pairs = map (\<lambda>r. (value_clusterID r, row_xy (source r))) out
          in \<exists>j \<le> i. pairs ! j = pairs ! i \<and> pairs ! j \<notin> set (take j pairs) \<and>
               final_Classification (out ! i) = int (card (set (take j pairs)))) \<and>
         final_Classification (out ! i) \<noteq> - 1"
proof -
  let ?st0 = "\<lparr>labs = map (\<lambda>r. (row_pid r, 0 :: int)) rows, tree_coords = coords\<rparr>"
  let ?grp = "filter (\<lambda>r. row_xy r = Some name) rows"
  let ?pairs = "map (\<lambda>r. (value_clusterID r, row_xy (source r))) out"
  from kmean_cluster_labs[OF assms(1)] obtain st where
    loop: "kmean_loop pdal plm fit tdf md rt rv (groupby_xy rows) ?st0 = Inr st"
    and lo: "length out = length rows"
    and nth: "\<forall>i < length rows. source (out ! i) = rows ! i \<and>
              value_clusterID (out ! i) = snd (labs st ! i) * 10"
    by blast
  from assms(2) lo have i: "i < length rows" by simp
  with nth assms(3) have xy: "row_xy (rows ! i) = Some name" by simp
  from i have mem_rows: "rows ! i \<in> set rows" by simp
  have k: "i < length (labs ?st0)" using i by simp
  have inside: "fst (labs ?st0 ! i) \<in> row_pid ` set ?grp"
    using i mem_rows xy by auto
  from kmean_loop_grouped_minus_one[OF loop k groupby_xy_mem[OF mem_rows xy] inside]
  have "snd (labs st ! i) = - 1" .
  with nth i have val: "value_clusterID (out ! i) = - 10" by simp
  from first_occurrence[of i ?pairs] assms(2)
  obtain j where j: "j \<le> i" "?pairs ! j = ?pairs ! i" "?pairs ! j \<notin> set (take j ?pairs)"
    by auto
  from j(1) assms(2) have jl: "j < length out" by simp
  from j(2) jl assms(2)
  have same: "value_clusterID (out ! i) div 10 = value_clusterID (out ! j) div 10 \<and>
              row_xy (source (out ! i)) = row_xy (source (out ! j))"
    by simp
  from kmean_cluster_fusion[OF assms(1,2) jl] same
  have eq: "final_Classification (out ! i) = final_Classification (out ! j)" by blast
  from kmean_cluster_fusion[OF assms(1) jl jl] j(3)
  have "final_Classification (out ! j) = int (card (set (take j ?pairs)))"
    unfolding Let_def by blast
  with eq have fin: "final_Classification (out ! i) = int (card (set (take j ?pairs)))" by simp
  then have "final_Classification (out ! i) \<noteq> - 1" by simp
  with val j fin show ?thesis unfolding Let_def by blast
qed

lemma small_run:
  "kmean_cluster keep_pdal no_peak alternate_fit small_tree_df [] small_grouped_points 1 2 1 =
     Inr ([], small_labelled)"
  by code_simp

theorem kmean_cluster_small_polygon_witness:
  "kmean_cluster keep_pdal no_peak alternate_fit small_tree_df [] small_grouped_points 1 2 1 =
     Inr ([], small_labelled) \<and>
   row_xy (source (small_labelled ! 2)) = Some 1 \<and>
   tree_area small_tree_df 1 = Inr 1 \<and>
   value_clusterID (small_labelled ! 2) = - 10 \<and>
   final_Classification (small_labelled ! 2) \<noteq> - 1"
proof -
  have i: "2 < length small_labelled" by code_simp
  have xy: "row_xy (source (small_labelled ! 2)) = Some 1" by code_simp
  have ta: "tree_area small_tree_df 1 = Inr 1" by code_simp
  have small: "(1 :: real) < 2 \<or>
      length (filter (\<lambda>r. row_xy r = Some 1) small_grouped_points) < 10"
    by simp
  from kmean_cluster_small_polygon[OF small_run i xy ta small] small_run xy ta
  show ?thesis by blast
qed

text \<open>
  C1 as stated fails: the three sample points lie in polygons of area 1, and their final
  \<open>Classification\<close> is 0, 0 and 1, not -1.
\<close>

theorem kmean_cluster_small_polygon_not_minus_one:
  "tree_area small_tree_df 0 = Inr 1 \<and> tree_area small_tree_df 1 = Inr 1 \<and>
   map (\<lambda>r. (row_xy (source r), value_clusterID r, final_Classification r))
     (case kmean_cluster keep_pdal no_peak alternate_fit small_tree_df [] small_grouped_points
             1 2 1 of
        Inl e \<Rightarrow> [] | Inr res \<Rightarrow> snd res)
   = [(Some 0, - 10, 0), (Some 0, - 10, 0), (Some 1, - 10, 1)]"
  by code_simp

theorem label_fusion_iff_witness:
  "kmean_cluster keep_pdal no_peak alternate_fit small_tree_df [] small_grouped_points 1 2 1 =
     Inr ([], small_labelled) \<and>
   final_Classification (small_labelled ! 0) = final_Classification (small_labelled ! 1) \<and>
   final_Classification (small_labelled ! 1) \<noteq> final_Classification (small_labelled ! 2) \<and>
   10 dvd value_clusterID (small_labelled ! 0)"
proof -
  have l: "0 < length small_labelled" "1 < length small_labelled" "2 < length small_labelled"
    by code_simp+
  have same: "value_clusterID (small_labelled ! 0) div 10 = value_clusterID (small_labelled ! 1) div 10 \<and>
      row_xy (source (small_labelled ! 0)) = row_xy (source (small_labelled ! 1))"
    by code_simp
  have diff: "\<not> (value_clusterID (small_labelled ! 1) div 10 = value_clusterID (small_labelled ! 2) div 10 \<and>
      row_xy (source (small_labelled ! 1)) = row_xy (source (small_labelled ! 2)))"
    by code_simp
  from label_fusion_iff[OF small_run l(1) l(2), THEN conjunct1] same
  have a: "final_Classification (small_labelled ! 0) = final_Classification (small_labelled ! 1)"
    by blast
  from label_fusion_iff[OF small_run l(2) l(3), THEN conjunct1] diff
  have b: "final_Classification (small_labelled ! 1) \<noteq> final_Classification (small_labelled ! 2)"
    by blast
  from label_fusion_iff[OF small_run l(1) l(2), THEN conjunct2, THEN conjunct1]
  have c: "10 dvd value_clusterID (small_labelled ! 0)" .
  from small_run a b c show ?thesis by blast
qed

end
